theory Spec2Isabelle
  imports Main "HOL-Library.Word"
begin

section \<open>Data model\<close>

text \<open>
  Two translation units are modelled: the file that implements the OpenThread Event
  thread and \<^verbatim>\<open>pkg/openthread/contrib/openthread_task_thread.c\<close>, which implements
  the OpenThread Task thread. Both are glue between the RIOT kernel, the radio
  driver and the OpenThread stack, so almost every statement is a call of a
  function that lives elsewhere. The embedding keeps the globals of the two files
  in a state record, threads an abstract outside world \<open>'e\<close> through every external
  call, and records each external call (and each store to memory shared with other
  contexts) in a trace, in program order.

  The model is the sequential run of one thread at a time. Preemption by another
  thread or by an interrupt is not modelled, every external call returns (a mutex
  that is never granted is not told apart), and external code changes the outside
  world only: it does not write the globals of the two files or the objects that
  messages point to while a call is under way. Memory is a function from addresses
  to objects, so different addresses name different objects.
\<close>

text \<open>\<^verbatim>\<open>kernel_pid_t\<close> is a signed integer type of the kernel; pids are only
  copied and compared with 0 here, so they are integers.\<close>

type_synonym kernel_pid_t = int

text \<open>Addresses, and the 32 bits of the \<^verbatim>\<open>content\<close> union of a message
  (\<^verbatim>\<open>content.value\<close> and \<^verbatim>\<open>content.ptr\<close> are two readings of the same bits).\<close>

type_synonym ptr = "32 word"

record msg_t =
  sender_pid :: kernel_pid_t
  type :: "16 word"
  content :: "32 word"

record serial_msg_t =
  buf :: "8 word list"
  length_serial :: "16 word"
  serial_buffer_status :: "16 word"

record ot_job_t =
  command :: string
  arg :: ptr
  answer :: ptr

datatype netdev_event_t = NETDEV_EVENT_TX_NOACK | NETDEV_EVENT_TX_MEDIUM_BUSY

text \<open>The two thread bodies that are handed to \<^verbatim>\<open>thread_create\<close>.\<close>

datatype thread_entry = Openthread_event_thread | Openthread_task_thread

text \<open>
  Compile-time configuration. The message tags, the FREE status, the default PAN id
  and channel, the thread-creation flag and \<^verbatim>\<open>EINVAL\<close> are macros of headers that
  are not part of the two files; they are parameters. The \<^verbatim>\<open>MODULE_...\<close> switches
  are the conditions of the \<^verbatim>\<open>#ifdef\<close> blocks.
\<close>

record config =
  OPENTHREAD_TASK_MSG_TYPE_EVENT :: "16 word"
  OPENTHREAD_NETDEV_MSG_TYPE_EVENT :: "16 word"
  OPENTHREAD_LINK_RETRY_TIMEOUT :: "16 word"
  OPENTHREAD_NETDEV_MSG_TYPE_RADIO_BUSY :: "16 word"
  OPENTHREAD_MILLITIMER_MSG_TYPE_EVENT :: "16 word"
  OPENTHREAD_MICROTIMER_MSG_TYPE_EVENT :: "16 word"
  OPENTHREAD_SERIAL_MSG_TYPE_EVENT :: "16 word"
  OPENTHREAD_JOB_MSG_TYPE_EVENT :: "16 word"
  OPENTHREAD_SERIAL_BUFFER_STATUS_FREE :: "16 word"
  OPENTHREAD_PANID :: "16 word"
  OPENTHREAD_CHANNEL :: "8 word"
  THREAD_CREATE_STACKTEST :: int
  EINVAL :: int
  MODULE_OPENTHREAD_FTD :: bool
  MODULE_OPENTHREAD_NCP_FTD :: bool
  MODULE_OPENTHREAD_CLI_FTD :: bool
  MODULE_OPENTHREAD_CLI_MTD :: bool
  OPENTHREAD_ENABLE_DIAG :: bool

text \<open>
  Everything the two files do to the outside: a call of an external function, with
  its arguments, or a store to memory that other contexts read (the global flag
  \<^verbatim>\<open>otTaskPending\<close>, a serial buffer slot reached through a message, the radio
  device's \<^verbatim>\<open>pending_irq\<close>). Queries without effect (\<^verbatim>\<open>thread_getpid\<close>,
  \<^verbatim>\<open>otTaskletsArePending\<close>, \<^verbatim>\<open>openthread_get_netdev\<close>) are not recorded.
  \<^verbatim>\<open>msg_send\<close> carries the only field of the local message that is initialised (its
  type) and the target pid; \<^verbatim>\<open>msg_reply\<close> carries the message replied to and the only
  initialised field of the reply (its value). \<^verbatim>\<open>otPlatUartReceived\<close> carries the
  contents of the buffer it is pointed at and the length. \<^verbatim>\<open>thread_create\<close> carries
  the stack, its size, the priority, the flags, the thread body and the name (its
  argument pointer is always \<^verbatim>\<open>NULL\<close>); \<^verbatim>\<open>msg_init_queue\<close> the length of the file's
  own queue; \<^verbatim>\<open>netdev_isr\<close> is the call \<^verbatim>\<open>dev->driver->isr(dev)\<close>.
\<close>

datatype action =
    thread_create ptr int "8 word" int thread_entry string
  | msg_init_queue nat
  | xtimer_usleep nat
  | otInstanceInitSingle
  | otLinkSetPanId ptr "16 word"
  | otLinkSetChannel ptr "8 word"
  | otCliUartInit ptr
  | otIp6SetEnabled ptr bool
  | otThreadSetEnabled ptr bool
  | otNcpInit ptr
  | otCommissionerStart ptr
  | diagInit ptr
  | otTaskletsProcess ptr
  | msg_receive
  | msg_send "16 word" kernel_pid_t
  | msg_reply msg_t "32 word"
  | netdev_isr ptr
  | irq_disable
  | irq_restore "32 word"
  | sent_pkt ptr netdev_event_t
  | otPlatAlarmMilliFired ptr
  | otPlatAlarmMicroFired ptr
  | wdt_clear
  | otPlatUartReceived "8 word list" "16 word"
  | ot_exec_command ptr string ptr ptr
  | openthread_coarse_lock_buffer_mutex
  | openthread_coarse_unlock_buffer_mutex
  | lock_radio_mutex
  | unlock_radio_mutex
  | store_otTaskPending bool
  | store_serial_buffer_status ptr "16 word"
  | store_pending_irq ptr "8 word"

text \<open>
  The outside world: how a call changes it, and what the calls that return a value
  return in it. The declarations of these functions are in headers outside the two
  files; \<^verbatim>\<open>ot_exec_command\<close> is taken to return a \<^verbatim>\<open>uint8_t\<close>, \<^verbatim>\<open>irq_disable\<close> an
  \<^verbatim>\<open>unsigned\<close>, \<^verbatim>\<open>thread_create\<close> and \<^verbatim>\<open>thread_getpid\<close> a \<^verbatim>\<open>kernel_pid_t\<close>. The
  value functions are asked in the world in which the call is made.
\<close>

record 'e extern =
  effect :: "action \<Rightarrow> 'e \<Rightarrow> 'e"
  thread_getpid :: "'e \<Rightarrow> kernel_pid_t"
  thread_create_ret :: "action \<Rightarrow> 'e \<Rightarrow> kernel_pid_t"
  otInstanceInitSingle_ret :: "'e \<Rightarrow> ptr"
  otTaskletsArePending :: "ptr \<Rightarrow> 'e \<Rightarrow> bool"
  msg_receive_ret :: "'e \<Rightarrow> msg_t"
  ot_exec_command_ret :: "action \<Rightarrow> 'e \<Rightarrow> 8 word"
  irq_disable_ret :: "'e \<Rightarrow> 32 word"
  openthread_get_netdev :: "'e \<Rightarrow> ptr"

text \<open>
  The globals of the two files (\<^verbatim>\<open>_event_pid\<close>, \<^verbatim>\<open>sInstance\<close>, \<^verbatim>\<open>_ot_task_pid\<close>,
  \<^verbatim>\<open>otTaskPending\<close>), the memory they reach through pointers (serial buffer slots,
  job records, the radio device's interrupt counter), the outside world and the
  trace. A leading underscore is not a legal name here, so \<^verbatim>\<open>_event_pid\<close> is
  \<open>event_pid\<close> and \<^verbatim>\<open>_ot_task_pid\<close> is \<open>ot_task_pid\<close>. The counter \<^verbatim>\<open>pending_irq\<close>
  of the radio device is taken to be eight bits wide; a decrement wraps around.
\<close>

record 'e ot_state =
  event_pid :: kernel_pid_t
  sInstance :: ptr
  ot_task_pid :: kernel_pid_t
  otTaskPending :: bool
  serial_mem :: "ptr \<Rightarrow> serial_msg_t"
  job_mem :: "ptr \<Rightarrow> ot_job_t"
  pending_irq :: "ptr \<Rightarrow> 8 word"
  env :: 'e
  trace :: "action list"

text \<open>An external call: the world moves on and the call is appended to the trace.\<close>

definition call :: "'e extern \<Rightarrow> action \<Rightarrow> 'e ot_state \<Rightarrow> 'e ot_state" where
  "call X a s = s\<lparr>env := effect X a (env s), trace := trace s @ [a]\<rparr>"

text \<open>A store to shared memory is recorded in the trace; the world does not move.\<close>

definition record_store :: "action \<Rightarrow> 'e ot_state \<Rightarrow> 'e ot_state" where
  "record_store a s = s\<lparr>trace := trace s @ [a]\<rparr>"

section \<open>The Event thread file\<close>

definition openthread_get_instance :: "'e ot_state \<Rightarrow> ptr" where
  "openthread_get_instance s = sInstance s"

definition openthread_get_event_pid :: "'e ot_state \<Rightarrow> kernel_pid_t" where
  "openthread_get_event_pid s = event_pid s"

text \<open>\<^verbatim>\<open>otTaskletsSignalPending\<close>: the argument is unused.\<close>

definition otTaskletsSignalPending ::
  "config \<Rightarrow> 'e extern \<Rightarrow> ptr \<Rightarrow> 'e ot_state \<Rightarrow> 'e ot_state" where
  "otTaskletsSignalPending cfg X aInstance s =
     (if thread_getpid X (env s) \<noteq> openthread_get_event_pid s
      then call X (msg_send (OPENTHREAD_TASK_MSG_TYPE_EVENT cfg) (openthread_get_event_pid s)) s
      else s)"

text \<open>
  Stores to shared memory. Each updates the memory and is recorded in the trace.
\<close>

definition write_otTaskPending :: "bool \<Rightarrow> 'e ot_state \<Rightarrow> 'e ot_state" where
  "write_otTaskPending b s = record_store (store_otTaskPending b) (s\<lparr>otTaskPending := b\<rparr>)"

definition write_serial_buffer_status :: "ptr \<Rightarrow> 16 word \<Rightarrow> 'e ot_state \<Rightarrow> 'e ot_state" where
  "write_serial_buffer_status p v s =
     record_store (store_serial_buffer_status p v)
       (s\<lparr>serial_mem := (serial_mem s)(p := (serial_mem s p)\<lparr>serial_buffer_status := v\<rparr>)\<rparr>)"

definition write_pending_irq :: "ptr \<Rightarrow> 8 word \<Rightarrow> 'e ot_state \<Rightarrow> 'e ot_state" where
  "write_pending_irq dev v s =
     record_store (store_pending_irq dev v) (s\<lparr>pending_irq := (pending_irq s)(dev := v)\<rparr>)"

text \<open>
  The tasklet drain, the same loop in both files:
  \<^verbatim>\<open>while (otTaskletsArePending(openthread_get_instance())) otTaskletsProcess(openthread_get_instance());\<close>
  Nothing in the two files bounds it, so it is a partial function: \<open>None\<close> is a
  drain that never ends.
\<close>

partial_function (option) drain_tasklets :: "'e extern \<Rightarrow> 'e ot_state \<Rightarrow> 'e ot_state option" where
  "drain_tasklets X s =
     (if otTaskletsArePending X (openthread_get_instance s) (env s)
      then drain_tasklets X (call X (otTaskletsProcess (openthread_get_instance s)) s)
      else Some s)"

declare drain_tasklets.simps [code]

definition OPENTHREAD_EVENT_QUEUE_LEN :: nat where
  "OPENTHREAD_EVENT_QUEUE_LEN = 16"

text \<open>\<^verbatim>\<open>_openthread_event_thread\<close>, from its first line to the line before \<^verbatim>\<open>while (1)\<close>.\<close>

definition openthread_event_thread_startup :: "config \<Rightarrow> 'e extern \<Rightarrow> 'e ot_state \<Rightarrow> 'e ot_state" where
  "openthread_event_thread_startup cfg X s =
     (let s1 = s\<lparr>event_pid := thread_getpid X (env s)\<rparr>;
          s2 = call X (msg_init_queue OPENTHREAD_EVENT_QUEUE_LEN) s1;
          s3 = call X (xtimer_usleep 100000) s2;
          s4 = (call X otInstanceInitSingle s3)\<lparr>sInstance := otInstanceInitSingle_ret X (env s3)\<rparr>;
          s5 = call X (otLinkSetPanId (sInstance s4) (OPENTHREAD_PANID cfg)) s4;
          s6 = call X (otLinkSetChannel (sInstance s5) (OPENTHREAD_CHANNEL cfg)) s5;
          s7 = (if MODULE_OPENTHREAD_CLI_FTD cfg \<or> MODULE_OPENTHREAD_CLI_MTD cfg
                then call X (otThreadSetEnabled (sInstance s6) True)
                       (call X (otIp6SetEnabled (sInstance s6) True)
                          (call X (otCliUartInit (sInstance s6)) s6))
                else s6);
          s8 = (if MODULE_OPENTHREAD_NCP_FTD cfg
                then call X (otCommissionerStart (sInstance s7)) (call X (otNcpInit (sInstance s7)) s7)
                else s7)
      in if OPENTHREAD_ENABLE_DIAG cfg then call X (diagInit (sInstance s8)) s8 else s8)"

text \<open>
  The \<^verbatim>\<open>switch (msg.type)\<close> of the Event thread, on the message just received. The
  cases are tried in the order of the source; the microsecond-timer case exists on
  \<^verbatim>\<open>MODULE_OPENTHREAD_FTD\<close> builds only, and so does the decrement of \<^verbatim>\<open>pending_irq\<close>.
  There is no \<^verbatim>\<open>default\<close>.
\<close>

definition event_switch :: "config \<Rightarrow> 'e extern \<Rightarrow> msg_t \<Rightarrow> 'e ot_state \<Rightarrow> 'e ot_state" where
  "event_switch cfg X msg s =
     (if type msg = OPENTHREAD_TASK_MSG_TYPE_EVENT cfg then s
      else if type msg = OPENTHREAD_NETDEV_MSG_TYPE_EVENT cfg then
        (let s1 = call X (netdev_isr (openthread_get_netdev X (env s))) s
         in if MODULE_OPENTHREAD_FTD cfg \<and> content msg \<noteq> 0
            then (let state = irq_disable_ret X (env s1);
                      s2 = call X irq_disable s1;
                      dev = openthread_get_netdev X (env s2);
                      s3 = write_pending_irq dev (pending_irq s2 dev - 1) s2
                  in call X (irq_restore state) s3)
            else s1)
      else if type msg = OPENTHREAD_LINK_RETRY_TIMEOUT cfg then
        call X (sent_pkt (openthread_get_instance s) NETDEV_EVENT_TX_NOACK) s
      else if type msg = OPENTHREAD_NETDEV_MSG_TYPE_RADIO_BUSY cfg then
        call X (sent_pkt (openthread_get_instance s) NETDEV_EVENT_TX_MEDIUM_BUSY) s
      else if type msg = OPENTHREAD_MILLITIMER_MSG_TYPE_EVENT cfg then
        call X (otPlatAlarmMilliFired (sInstance s)) s
      else if MODULE_OPENTHREAD_FTD cfg \<and> type msg = OPENTHREAD_MICROTIMER_MSG_TYPE_EVENT cfg then
        call X (otPlatAlarmMicroFired (openthread_get_instance s)) s
      else if type msg = OPENTHREAD_SERIAL_MSG_TYPE_EVENT cfg then
        (let s1 = (if MODULE_OPENTHREAD_NCP_FTD cfg then call X wdt_clear s else s);
             serialBuffer = content msg;
             s2 = call X (otPlatUartReceived (buf (serial_mem s1 serialBuffer))
                            (length_serial (serial_mem s1 serialBuffer))) s1
         in write_serial_buffer_status serialBuffer (OPENTHREAD_SERIAL_BUFFER_STATUS_FREE cfg) s2)
      else if type msg = OPENTHREAD_JOB_MSG_TYPE_EVENT cfg then
        (let job = content msg;
             a = ot_exec_command (sInstance s) (command (job_mem s job)) (arg (job_mem s job))
                   (answer (job_mem s job));
             reply_content_value = ucast (ot_exec_command_ret X a (env s));
             s1 = call X a s
         in call X (msg_reply msg reply_content_value) s1)
      else s)"

text \<open>
  One turn of \<^verbatim>\<open>while (1)\<close> in the Event thread: drain, receive, switch. The turn
  has a result only when its drain ends.
\<close>

definition event_iteration :: "config \<Rightarrow> 'e extern \<Rightarrow> 'e ot_state \<Rightarrow> 'e ot_state option" where
  "event_iteration cfg X s =
     (case drain_tasklets X s of
        None \<Rightarrow> None
      | Some s1 \<Rightarrow> Some (event_switch cfg X (msg_receive_ret X (env s1)) (call X msg_receive s1)))"

text \<open>
  \<^verbatim>\<open>while (1)\<close> never exits, so the thread function has no final state. \<open>event_loop n\<close>
  is the state after \<open>n\<close> complete turns, and \<open>openthread_event_thread n\<close> the state
  of a thread that has started and completed \<open>n\<close> turns.
\<close>

fun event_loop :: "config \<Rightarrow> 'e extern \<Rightarrow> nat \<Rightarrow> 'e ot_state \<Rightarrow> 'e ot_state option" where
  "event_loop cfg X 0 s = Some s"
| "event_loop cfg X (Suc n) s =
     (case event_iteration cfg X s of None \<Rightarrow> None | Some s' \<Rightarrow> event_loop cfg X n s')"

definition openthread_event_thread :: "config \<Rightarrow> 'e extern \<Rightarrow> nat \<Rightarrow> 'e ot_state \<Rightarrow> 'e ot_state option" where
  "openthread_event_thread cfg X n s = event_loop cfg X n (openthread_event_thread_startup cfg X s)"

text \<open>
  \<^verbatim>\<open>openthread_event_init\<close>: the result of \<^verbatim>\<open>thread_create\<close> is stored in
  \<^verbatim>\<open>_event_pid\<close> first and tested afterwards. The pair is the returned \<^verbatim>\<open>int\<close> and
  the state.
\<close>

definition openthread_event_init ::
  "config \<Rightarrow> 'e extern \<Rightarrow> ptr \<Rightarrow> int \<Rightarrow> 8 word \<Rightarrow> string \<Rightarrow> 'e ot_state \<Rightarrow> int \<times> 'e ot_state" where
  "openthread_event_init cfg X stack stacksize priority name s =
     (let a = thread_create stack stacksize priority (THREAD_CREATE_STACKTEST cfg)
                Openthread_event_thread name;
          s1 = (call X a s)\<lparr>event_pid := thread_create_ret X a (env s)\<rparr>
      in if event_pid s1 \<le> 0 then (- EINVAL cfg, s1) else (event_pid s1, s1))"

section \<open>The Task thread file\<close>

definition openthread_get_task_pid :: "'e ot_state \<Rightarrow> kernel_pid_t" where
  "openthread_get_task_pid s = ot_task_pid s"

definition OPENTHREAD_TASK_QUEUE_LEN :: nat where
  "OPENTHREAD_TASK_QUEUE_LEN = 4"

text \<open>\<^verbatim>\<open>_openthread_task_thread\<close>, up to the line before \<^verbatim>\<open>while (1)\<close>.\<close>

definition openthread_task_thread_startup :: "'e extern \<Rightarrow> 'e ot_state \<Rightarrow> 'e ot_state" where
  "openthread_task_thread_startup X s =
     call X (msg_init_queue OPENTHREAD_TASK_QUEUE_LEN) (s\<lparr>ot_task_pid := thread_getpid X (env s)\<rparr>)"

text \<open>The \<^verbatim>\<open>switch (msg.type)\<close> of the Task thread, cases in the order of the source.\<close>

definition task_switch :: "config \<Rightarrow> 'e extern \<Rightarrow> msg_t \<Rightarrow> 'e ot_state \<Rightarrow> 'e ot_state" where
  "task_switch cfg X msg s =
     (if type msg = OPENTHREAD_TASK_MSG_TYPE_EVENT cfg then write_otTaskPending False s
      else if MODULE_OPENTHREAD_FTD cfg \<and> type msg = OPENTHREAD_MICROTIMER_MSG_TYPE_EVENT cfg then
        call X (otPlatAlarmMicroFired (openthread_get_instance s)) s
      else if type msg = OPENTHREAD_NETDEV_MSG_TYPE_EVENT cfg then
        (let s1 = call X lock_radio_mutex s;
             s2 = call X (netdev_isr (openthread_get_netdev X (env s1))) s1
         in call X unlock_radio_mutex s2)
      else if type msg = OPENTHREAD_NETDEV_MSG_TYPE_RADIO_BUSY cfg then
        call X (sent_pkt (openthread_get_instance s) NETDEV_EVENT_TX_MEDIUM_BUSY) s
      else if type msg = OPENTHREAD_LINK_RETRY_TIMEOUT cfg then
        call X (sent_pkt (openthread_get_instance s) NETDEV_EVENT_TX_NOACK) s
      else s)"

text \<open>One turn of \<^verbatim>\<open>while (1)\<close> in the Task thread: receive, lock, switch, drain, unlock.\<close>

definition task_iteration :: "config \<Rightarrow> 'e extern \<Rightarrow> 'e ot_state \<Rightarrow> 'e ot_state option" where
  "task_iteration cfg X s =
     (let msg = msg_receive_ret X (env s);
          s1 = call X msg_receive s;
          s2 = call X openthread_coarse_lock_buffer_mutex s1;
          s3 = task_switch cfg X msg s2
      in case drain_tasklets X s3 of
           None \<Rightarrow> None
         | Some s4 \<Rightarrow> Some (call X openthread_coarse_unlock_buffer_mutex s4))"

fun task_loop :: "config \<Rightarrow> 'e extern \<Rightarrow> nat \<Rightarrow> 'e ot_state \<Rightarrow> 'e ot_state option" where
  "task_loop cfg X 0 s = Some s"
| "task_loop cfg X (Suc n) s =
     (case task_iteration cfg X s of None \<Rightarrow> None | Some s' \<Rightarrow> task_loop cfg X n s')"

definition openthread_task_thread :: "config \<Rightarrow> 'e extern \<Rightarrow> nat \<Rightarrow> 'e ot_state \<Rightarrow> 'e ot_state option" where
  "openthread_task_thread cfg X n s = task_loop cfg X n (openthread_task_thread_startup X s)"

definition openthread_task_init ::
  "config \<Rightarrow> 'e extern \<Rightarrow> ptr \<Rightarrow> int \<Rightarrow> 8 word \<Rightarrow> string \<Rightarrow> 'e ot_state \<Rightarrow> int \<times> 'e ot_state" where
  "openthread_task_init cfg X stack stacksize priority name s =
     (let a = thread_create stack stacksize priority (THREAD_CREATE_STACKTEST cfg)
                Openthread_task_thread name;
          s1 = (call X a s)\<lparr>ot_task_pid := thread_create_ret X a (env s)\<rparr>
      in if ot_task_pid s1 \<le> 0 then (- EINVAL cfg, s1) else (ot_task_pid s1, s1))"

section \<open>Vocabulary of the statements\<close>

text \<open>The actions performed between an earlier state and a later one.\<close>

definition new_actions :: "'e ot_state \<Rightarrow> 'e ot_state \<Rightarrow> action list" where
  "new_actions s s' = drop (length (trace s)) (trace s')"

text \<open>The condition and the body of the drain loop, named.\<close>

definition tasklets_pending :: "'e extern \<Rightarrow> 'e ot_state \<Rightarrow> bool" where
  "tasklets_pending X s = otTaskletsArePending X (openthread_get_instance s) (env s)"

definition tasklets_process :: "'e extern \<Rightarrow> 'e ot_state \<Rightarrow> 'e ot_state" where
  "tasklets_process X s = call X (otTaskletsProcess (openthread_get_instance s)) s"

text \<open>
  A \<^verbatim>\<open>switch\<close> with two equal case labels does not compile, so the tags of a build
  are pairwise different.
\<close>

definition wf_tags :: "config \<Rightarrow> bool" where
  "wf_tags cfg = distinct
     [OPENTHREAD_TASK_MSG_TYPE_EVENT cfg, OPENTHREAD_NETDEV_MSG_TYPE_EVENT cfg,
      OPENTHREAD_LINK_RETRY_TIMEOUT cfg, OPENTHREAD_NETDEV_MSG_TYPE_RADIO_BUSY cfg,
      OPENTHREAD_MILLITIMER_MSG_TYPE_EVENT cfg, OPENTHREAD_MICROTIMER_MSG_TYPE_EVENT cfg,
      OPENTHREAD_SERIAL_MSG_TYPE_EVENT cfg, OPENTHREAD_JOB_MSG_TYPE_EVENT cfg]"

text \<open>The case labels of each \<^verbatim>\<open>switch\<close> in a given build.\<close>

definition event_tags :: "config \<Rightarrow> 16 word list" where
  "event_tags cfg =
     [OPENTHREAD_TASK_MSG_TYPE_EVENT cfg, OPENTHREAD_NETDEV_MSG_TYPE_EVENT cfg,
      OPENTHREAD_LINK_RETRY_TIMEOUT cfg, OPENTHREAD_NETDEV_MSG_TYPE_RADIO_BUSY cfg,
      OPENTHREAD_MILLITIMER_MSG_TYPE_EVENT cfg] @
     (if MODULE_OPENTHREAD_FTD cfg then [OPENTHREAD_MICROTIMER_MSG_TYPE_EVENT cfg] else []) @
     [OPENTHREAD_SERIAL_MSG_TYPE_EVENT cfg, OPENTHREAD_JOB_MSG_TYPE_EVENT cfg]"

definition task_tags :: "config \<Rightarrow> 16 word list" where
  "task_tags cfg =
     [OPENTHREAD_TASK_MSG_TYPE_EVENT cfg] @
     (if MODULE_OPENTHREAD_FTD cfg then [OPENTHREAD_MICROTIMER_MSG_TYPE_EVENT cfg] else []) @
     [OPENTHREAD_NETDEV_MSG_TYPE_EVENT cfg, OPENTHREAD_NETDEV_MSG_TYPE_RADIO_BUSY cfg,
      OPENTHREAD_LINK_RETRY_TIMEOUT cfg]"

text \<open>
  The locking discipline of the Task thread, as an acceptor of its trace. A turn
  starts idle, receives, takes the coarse buffer mutex at once, and gives it back
  at the end; in between, the radio mutex is taken and released around exactly one
  call of the radio driver's interrupt service routine, and that routine is called
  nowhere else.
\<close>

datatype lock_phase = Idle | Received | Coarse_held | Radio_held | Radio_isr_done

definition is_netdev_isr :: "action \<Rightarrow> bool" where
  "is_netdev_isr a = (case a of netdev_isr dev \<Rightarrow> True | _ \<Rightarrow> False)"

definition lock_step :: "lock_phase \<Rightarrow> action \<Rightarrow> lock_phase option" where
  "lock_step ph a =
     (case ph of
        Idle \<Rightarrow> if a = msg_receive then Some Received else None
      | Received \<Rightarrow> if a = openthread_coarse_lock_buffer_mutex then Some Coarse_held else None
      | Coarse_held \<Rightarrow>
          if a = lock_radio_mutex then Some Radio_held
          else if a = openthread_coarse_unlock_buffer_mutex then Some Idle
          else if a = msg_receive \<or> a = openthread_coarse_lock_buffer_mutex \<or>
                  a = unlock_radio_mutex \<or> is_netdev_isr a then None
          else Some Coarse_held
      | Radio_held \<Rightarrow> if is_netdev_isr a then Some Radio_isr_done else None
      | Radio_isr_done \<Rightarrow> if a = unlock_radio_mutex then Some Coarse_held else None)"

fun lock_run :: "lock_phase \<Rightarrow> action list \<Rightarrow> lock_phase option" where
  "lock_run ph [] = Some ph"
| "lock_run ph (a # as) = (case lock_step ph a of None \<Rightarrow> None | Some ph' \<Rightarrow> lock_run ph' as)"


section \<open>A concrete outside world\<close>

text \<open>
  A small world to run the model in: the pid of the running thread, the value
  \<^verbatim>\<open>thread_create\<close> returns, the number of tasklets queued in the stack (each
  \<^verbatim>\<open>otTaskletsProcess\<close> runs one), and the messages waiting in the queue of the
  running thread. The command interpreter answers every command with 42.
\<close>

record world =
  running :: kernel_pid_t
  create_result :: kernel_pid_t
  tasklets :: nat
  queue :: "msg_t list"

definition demo_effect :: "action \<Rightarrow> world \<Rightarrow> world" where
  "demo_effect a w =
     (if a = msg_receive then w\<lparr>queue := tl (queue w)\<rparr>
      else case a of otTaskletsProcess i \<Rightarrow> w\<lparr>tasklets := tasklets w - 1\<rparr> | _ \<Rightarrow> w)"

definition demo_msg_receive_ret :: "world \<Rightarrow> msg_t" where
  "demo_msg_receive_ret w =
     (case queue w of [] \<Rightarrow> \<lparr>sender_pid = 0, type = 0, content = 0\<rparr> | m # ms \<Rightarrow> m)"

definition demo_extern :: "world extern" where
  "demo_extern =
     \<lparr>effect = demo_effect,
      thread_getpid = running,
      thread_create_ret = (\<lambda>a. create_result),
      otInstanceInitSingle_ret = (\<lambda>w. 0x20001000),
      otTaskletsArePending = (\<lambda>i w. 0 < tasklets w),
      msg_receive_ret = demo_msg_receive_ret,
      ot_exec_command_ret = (\<lambda>a w. 42),
      irq_disable_ret = (\<lambda>w. 1),
      openthread_get_netdev = (\<lambda>w. 0x20002000)\<rparr>"

definition demo_config :: config where
  "demo_config =
     \<lparr>OPENTHREAD_TASK_MSG_TYPE_EVENT = 0x2235,
      OPENTHREAD_NETDEV_MSG_TYPE_EVENT = 0x2236,
      OPENTHREAD_LINK_RETRY_TIMEOUT = 0x2237,
      OPENTHREAD_NETDEV_MSG_TYPE_RADIO_BUSY = 0x2238,
      OPENTHREAD_MILLITIMER_MSG_TYPE_EVENT = 0x2239,
      OPENTHREAD_MICROTIMER_MSG_TYPE_EVENT = 0x223A,
      OPENTHREAD_SERIAL_MSG_TYPE_EVENT = 0x223B,
      OPENTHREAD_JOB_MSG_TYPE_EVENT = 0x223C,
      OPENTHREAD_SERIAL_BUFFER_STATUS_FREE = 1,
      OPENTHREAD_PANID = 0x1234,
      OPENTHREAD_CHANNEL = 26,
      THREAD_CREATE_STACKTEST = 8,
      EINVAL = 22,
      MODULE_OPENTHREAD_FTD = True,
      MODULE_OPENTHREAD_NCP_FTD = True,
      MODULE_OPENTHREAD_CLI_FTD = False,
      MODULE_OPENTHREAD_CLI_MTD = False,
      OPENTHREAD_ENABLE_DIAG = False\<rparr>"

text \<open>
  The state before either thread exists: the statics are zero-initialised, the flag
  has its initialiser \<^verbatim>\<open>false\<close>. One serial slot holds the bytes of \<^verbatim>\<open>ping\<close> and is
  in use (status 0); one job record asks for command \<^verbatim>\<open>echo\<close>.
\<close>

definition demo_slot :: serial_msg_t where
  "demo_slot = \<lparr>buf = [0x70, 0x69, 0x6E, 0x67], length_serial = 4, serial_buffer_status = 0\<rparr>"

definition demo_job :: ot_job_t where
  "demo_job = \<lparr>command = ''echo'', arg = 0x20003000, answer = 0x20003100\<rparr>"

definition boot :: "world \<Rightarrow> world ot_state" where
  "boot w =
     \<lparr>event_pid = 0, sInstance = 0, ot_task_pid = 0, otTaskPending = False,
      serial_mem = (\<lambda>p. demo_slot), job_mem = (\<lambda>p. demo_job), pending_irq = (\<lambda>p. 3),
      env = w, trace = []\<rparr>"

definition demo_msg :: "16 word \<Rightarrow> 32 word \<Rightarrow> msg_t" where
  "demo_msg ty v = \<lparr>sender_pid = 9, type = ty, content = v\<rparr>"

definition demo_world :: "kernel_pid_t \<Rightarrow> kernel_pid_t \<Rightarrow> nat \<Rightarrow> msg_t list \<Rightarrow> world" where
  "demo_world self created n ms = \<lparr>running = self, create_result = created, tasklets = n, queue = ms\<rparr>"

text \<open>
  A state in which both threads run: the Event thread has pid 7 and has created the
  stack instance, the Task thread has pid 5.
\<close>

definition started :: "world \<Rightarrow> world ot_state" where
  "started w = (boot w)\<lparr>event_pid := 7, sInstance := 0x20001000, ot_task_pid := 5\<rparr>"

text \<open>
  Between two states the flag \<^verbatim>\<open>otTaskPending\<close> was neither changed nor stored to.
\<close>

definition flag_untouched :: "'e ot_state \<Rightarrow> 'e ot_state \<Rightarrow> bool" where
  "flag_untouched s s' \<longleftrightarrow>
     otTaskPending s' = otTaskPending s \<and>
     store_otTaskPending True \<notin> set (new_actions s s') \<and>
     store_otTaskPending False \<notin> set (new_actions s s')"

section \<open>Basic facts\<close>

lemma call_fields [simp]:
  "event_pid (call X a s) = event_pid s"
  "sInstance (call X a s) = sInstance s"
  "ot_task_pid (call X a s) = ot_task_pid s"
  "otTaskPending (call X a s) = otTaskPending s"
  "serial_mem (call X a s) = serial_mem s"
  "job_mem (call X a s) = job_mem s"
  "pending_irq (call X a s) = pending_irq s"
  "env (call X a s) = effect X a (env s)"
  "trace (call X a s) = trace s @ [a]"
  by (simp_all add: call_def)

lemma record_store_fields [simp]:
  "event_pid (record_store a s) = event_pid s"
  "sInstance (record_store a s) = sInstance s"
  "ot_task_pid (record_store a s) = ot_task_pid s"
  "otTaskPending (record_store a s) = otTaskPending s"
  "serial_mem (record_store a s) = serial_mem s"
  "job_mem (record_store a s) = job_mem s"
  "pending_irq (record_store a s) = pending_irq s"
  "env (record_store a s) = env s"
  "trace (record_store a s) = trace s @ [a]"
  by (simp_all add: record_store_def)

lemma write_fields [simp]:
  "trace (write_otTaskPending b s) = trace s @ [store_otTaskPending b]"
  "otTaskPending (write_otTaskPending b s) = b"
  "env (write_otTaskPending b s) = env s"
  "sInstance (write_otTaskPending b s) = sInstance s"
  "trace (write_serial_buffer_status p v s) = trace s @ [store_serial_buffer_status p v]"
  "otTaskPending (write_serial_buffer_status p v s) = otTaskPending s"
  "env (write_serial_buffer_status p v s) = env s"
  "sInstance (write_serial_buffer_status p v s) = sInstance s"
  "serial_mem (write_serial_buffer_status p v s) =
     (serial_mem s)(p := (serial_mem s p)\<lparr>serial_buffer_status := v\<rparr>)"
  "pending_irq (write_serial_buffer_status p v s) = pending_irq s"
  "trace (write_pending_irq dev c s) = trace s @ [store_pending_irq dev c]"
  "otTaskPending (write_pending_irq dev c s) = otTaskPending s"
  "env (write_pending_irq dev c s) = env s"
  "sInstance (write_pending_irq dev c s) = sInstance s"
  "pending_irq (write_pending_irq dev c s) = (pending_irq s)(dev := c)"
  "serial_mem (write_pending_irq dev c s) = serial_mem s"
  by (simp_all add: write_otTaskPending_def write_serial_buffer_status_def write_pending_irq_def)

lemma new_actions_append: "trace s' = trace s @ xs \<Longrightarrow> new_actions s s' = xs"
  by (simp add: new_actions_def)

lemma new_actions_self [simp]: "new_actions s s = []"
  by (simp add: new_actions_def)

lemma new_actions_extends: "trace s' = trace s @ xs \<Longrightarrow> trace s' = trace s @ new_actions s s'"
  by (simp add: new_actions_def)

lemma wf_tagsD:
  assumes "wf_tags cfg"
  shows
    "OPENTHREAD_TASK_MSG_TYPE_EVENT cfg \<noteq> OPENTHREAD_NETDEV_MSG_TYPE_EVENT cfg"
    "OPENTHREAD_TASK_MSG_TYPE_EVENT cfg \<noteq> OPENTHREAD_LINK_RETRY_TIMEOUT cfg"
    "OPENTHREAD_TASK_MSG_TYPE_EVENT cfg \<noteq> OPENTHREAD_NETDEV_MSG_TYPE_RADIO_BUSY cfg"
    "OPENTHREAD_TASK_MSG_TYPE_EVENT cfg \<noteq> OPENTHREAD_MILLITIMER_MSG_TYPE_EVENT cfg"
    "OPENTHREAD_TASK_MSG_TYPE_EVENT cfg \<noteq> OPENTHREAD_MICROTIMER_MSG_TYPE_EVENT cfg"
    "OPENTHREAD_TASK_MSG_TYPE_EVENT cfg \<noteq> OPENTHREAD_SERIAL_MSG_TYPE_EVENT cfg"
    "OPENTHREAD_TASK_MSG_TYPE_EVENT cfg \<noteq> OPENTHREAD_JOB_MSG_TYPE_EVENT cfg"
    "OPENTHREAD_NETDEV_MSG_TYPE_EVENT cfg \<noteq> OPENTHREAD_TASK_MSG_TYPE_EVENT cfg"
    "OPENTHREAD_NETDEV_MSG_TYPE_EVENT cfg \<noteq> OPENTHREAD_LINK_RETRY_TIMEOUT cfg"
    "OPENTHREAD_NETDEV_MSG_TYPE_EVENT cfg \<noteq> OPENTHREAD_NETDEV_MSG_TYPE_RADIO_BUSY cfg"
    "OPENTHREAD_NETDEV_MSG_TYPE_EVENT cfg \<noteq> OPENTHREAD_MILLITIMER_MSG_TYPE_EVENT cfg"
    "OPENTHREAD_NETDEV_MSG_TYPE_EVENT cfg \<noteq> OPENTHREAD_MICROTIMER_MSG_TYPE_EVENT cfg"
    "OPENTHREAD_NETDEV_MSG_TYPE_EVENT cfg \<noteq> OPENTHREAD_SERIAL_MSG_TYPE_EVENT cfg"
    "OPENTHREAD_NETDEV_MSG_TYPE_EVENT cfg \<noteq> OPENTHREAD_JOB_MSG_TYPE_EVENT cfg"
    "OPENTHREAD_LINK_RETRY_TIMEOUT cfg \<noteq> OPENTHREAD_TASK_MSG_TYPE_EVENT cfg"
    "OPENTHREAD_LINK_RETRY_TIMEOUT cfg \<noteq> OPENTHREAD_NETDEV_MSG_TYPE_EVENT cfg"
    "OPENTHREAD_LINK_RETRY_TIMEOUT cfg \<noteq> OPENTHREAD_NETDEV_MSG_TYPE_RADIO_BUSY cfg"
    "OPENTHREAD_LINK_RETRY_TIMEOUT cfg \<noteq> OPENTHREAD_MILLITIMER_MSG_TYPE_EVENT cfg"
    "OPENTHREAD_LINK_RETRY_TIMEOUT cfg \<noteq> OPENTHREAD_MICROTIMER_MSG_TYPE_EVENT cfg"
    "OPENTHREAD_LINK_RETRY_TIMEOUT cfg \<noteq> OPENTHREAD_SERIAL_MSG_TYPE_EVENT cfg"
    "OPENTHREAD_LINK_RETRY_TIMEOUT cfg \<noteq> OPENTHREAD_JOB_MSG_TYPE_EVENT cfg"
    "OPENTHREAD_NETDEV_MSG_TYPE_RADIO_BUSY cfg \<noteq> OPENTHREAD_TASK_MSG_TYPE_EVENT cfg"
    "OPENTHREAD_NETDEV_MSG_TYPE_RADIO_BUSY cfg \<noteq> OPENTHREAD_NETDEV_MSG_TYPE_EVENT cfg"
    "OPENTHREAD_NETDEV_MSG_TYPE_RADIO_BUSY cfg \<noteq> OPENTHREAD_LINK_RETRY_TIMEOUT cfg"
    "OPENTHREAD_NETDEV_MSG_TYPE_RADIO_BUSY cfg \<noteq> OPENTHREAD_MILLITIMER_MSG_TYPE_EVENT cfg"
    "OPENTHREAD_NETDEV_MSG_TYPE_RADIO_BUSY cfg \<noteq> OPENTHREAD_MICROTIMER_MSG_TYPE_EVENT cfg"
    "OPENTHREAD_NETDEV_MSG_TYPE_RADIO_BUSY cfg \<noteq> OPENTHREAD_SERIAL_MSG_TYPE_EVENT cfg"
    "OPENTHREAD_NETDEV_MSG_TYPE_RADIO_BUSY cfg \<noteq> OPENTHREAD_JOB_MSG_TYPE_EVENT cfg"
    "OPENTHREAD_MILLITIMER_MSG_TYPE_EVENT cfg \<noteq> OPENTHREAD_TASK_MSG_TYPE_EVENT cfg"
    "OPENTHREAD_MILLITIMER_MSG_TYPE_EVENT cfg \<noteq> OPENTHREAD_NETDEV_MSG_TYPE_EVENT cfg"
    "OPENTHREAD_MILLITIMER_MSG_TYPE_EVENT cfg \<noteq> OPENTHREAD_LINK_RETRY_TIMEOUT cfg"
    "OPENTHREAD_MILLITIMER_MSG_TYPE_EVENT cfg \<noteq> OPENTHREAD_NETDEV_MSG_TYPE_RADIO_BUSY cfg"
    "OPENTHREAD_MILLITIMER_MSG_TYPE_EVENT cfg \<noteq> OPENTHREAD_MICROTIMER_MSG_TYPE_EVENT cfg"
    "OPENTHREAD_MILLITIMER_MSG_TYPE_EVENT cfg \<noteq> OPENTHREAD_SERIAL_MSG_TYPE_EVENT cfg"
    "OPENTHREAD_MILLITIMER_MSG_TYPE_EVENT cfg \<noteq> OPENTHREAD_JOB_MSG_TYPE_EVENT cfg"
    "OPENTHREAD_MICROTIMER_MSG_TYPE_EVENT cfg \<noteq> OPENTHREAD_TASK_MSG_TYPE_EVENT cfg"
    "OPENTHREAD_MICROTIMER_MSG_TYPE_EVENT cfg \<noteq> OPENTHREAD_NETDEV_MSG_TYPE_EVENT cfg"
    "OPENTHREAD_MICROTIMER_MSG_TYPE_EVENT cfg \<noteq> OPENTHREAD_LINK_RETRY_TIMEOUT cfg"
    "OPENTHREAD_MICROTIMER_MSG_TYPE_EVENT cfg \<noteq> OPENTHREAD_NETDEV_MSG_TYPE_RADIO_BUSY cfg"
    "OPENTHREAD_MICROTIMER_MSG_TYPE_EVENT cfg \<noteq> OPENTHREAD_MILLITIMER_MSG_TYPE_EVENT cfg"
    "OPENTHREAD_MICROTIMER_MSG_TYPE_EVENT cfg \<noteq> OPENTHREAD_SERIAL_MSG_TYPE_EVENT cfg"
    "OPENTHREAD_MICROTIMER_MSG_TYPE_EVENT cfg \<noteq> OPENTHREAD_JOB_MSG_TYPE_EVENT cfg"
    "OPENTHREAD_SERIAL_MSG_TYPE_EVENT cfg \<noteq> OPENTHREAD_TASK_MSG_TYPE_EVENT cfg"
    "OPENTHREAD_SERIAL_MSG_TYPE_EVENT cfg \<noteq> OPENTHREAD_NETDEV_MSG_TYPE_EVENT cfg"
    "OPENTHREAD_SERIAL_MSG_TYPE_EVENT cfg \<noteq> OPENTHREAD_LINK_RETRY_TIMEOUT cfg"
    "OPENTHREAD_SERIAL_MSG_TYPE_EVENT cfg \<noteq> OPENTHREAD_NETDEV_MSG_TYPE_RADIO_BUSY cfg"
    "OPENTHREAD_SERIAL_MSG_TYPE_EVENT cfg \<noteq> OPENTHREAD_MILLITIMER_MSG_TYPE_EVENT cfg"
    "OPENTHREAD_SERIAL_MSG_TYPE_EVENT cfg \<noteq> OPENTHREAD_MICROTIMER_MSG_TYPE_EVENT cfg"
    "OPENTHREAD_SERIAL_MSG_TYPE_EVENT cfg \<noteq> OPENTHREAD_JOB_MSG_TYPE_EVENT cfg"
    "OPENTHREAD_JOB_MSG_TYPE_EVENT cfg \<noteq> OPENTHREAD_TASK_MSG_TYPE_EVENT cfg"
    "OPENTHREAD_JOB_MSG_TYPE_EVENT cfg \<noteq> OPENTHREAD_NETDEV_MSG_TYPE_EVENT cfg"
    "OPENTHREAD_JOB_MSG_TYPE_EVENT cfg \<noteq> OPENTHREAD_LINK_RETRY_TIMEOUT cfg"
    "OPENTHREAD_JOB_MSG_TYPE_EVENT cfg \<noteq> OPENTHREAD_NETDEV_MSG_TYPE_RADIO_BUSY cfg"
    "OPENTHREAD_JOB_MSG_TYPE_EVENT cfg \<noteq> OPENTHREAD_MILLITIMER_MSG_TYPE_EVENT cfg"
    "OPENTHREAD_JOB_MSG_TYPE_EVENT cfg \<noteq> OPENTHREAD_MICROTIMER_MSG_TYPE_EVENT cfg"
    "OPENTHREAD_JOB_MSG_TYPE_EVENT cfg \<noteq> OPENTHREAD_SERIAL_MSG_TYPE_EVENT cfg"
  using assms by (auto simp: wf_tags_def)

subsection \<open>The drain loop\<close>

lemma drain_tasklets_done:
  "\<not> tasklets_pending X s \<Longrightarrow> drain_tasklets X s = Some s"
  by (subst drain_tasklets.simps) (simp add: tasklets_pending_def)

lemma drain_tasklets_step:
  "tasklets_pending X s \<Longrightarrow> drain_tasklets X s = drain_tasklets X (tasklets_process X s)"
  by (subst drain_tasklets.simps) (simp add: tasklets_pending_def tasklets_process_def)

lemma drain_tasklets_funpow:
  "\<forall>i<n. tasklets_pending X ((tasklets_process X ^^ i) s) \<Longrightarrow>
   drain_tasklets X s = drain_tasklets X ((tasklets_process X ^^ n) s)"
proof (induction n arbitrary: s)
  case 0
  show ?case by simp
next
  case (Suc n)
  from Suc.prems have p0: "tasklets_pending X s" by force
  have "\<forall>i<n. tasklets_pending X ((tasklets_process X ^^ i) (tasklets_process X s))"
  proof (intro allI impI)
    fix i assume "i < n"
    then have "tasklets_pending X ((tasklets_process X ^^ Suc i) s)"
      using Suc.prems by blast
    then show "tasklets_pending X ((tasklets_process X ^^ i) (tasklets_process X s))"
      by (simp add: funpow_swap1)
  qed
  then have "drain_tasklets X (tasklets_process X s) =
             drain_tasklets X ((tasklets_process X ^^ n) (tasklets_process X s))"
    by (rule Suc.IH)
  then show ?case
    using p0 by (simp add: drain_tasklets_step funpow_swap1)
qed

lemma drain_tasklets_Some_D:
  assumes "drain_tasklets X s = Some s'"
  shows "\<exists>n. (\<forall>i<n. tasklets_pending X ((tasklets_process X ^^ i) s)) \<and>
       \<not> tasklets_pending X ((tasklets_process X ^^ n) s) \<and> s' = (tasklets_process X ^^ n) s"
proof -
  define P where "P = (\<lambda>(X :: 'a extern) s s'.
    \<exists>n. (\<forall>i<n. tasklets_pending X ((tasklets_process X ^^ i) s)) \<and>
       \<not> tasklets_pending X ((tasklets_process X ^^ n) s) \<and> s' = (tasklets_process X ^^ n) s)"
  have "P X s s'"
  proof (rule drain_tasklets.raw_induct [where P = P, OF _ assms])
    fix f and X :: "'a extern" and s s'
    assume IH: "\<And>X s y. f X s = Some y \<Longrightarrow> P X s y"
      and eq: "(if otTaskletsArePending X (openthread_get_instance s) (env s)
                then f X (call X (otTaskletsProcess (openthread_get_instance s)) s)
                else Some s) = Some s'"
    show "P X s s'"
    proof (cases "tasklets_pending X s")
      case False
      with eq have "s' = s" by (simp add: tasklets_pending_def)
      with False show ?thesis unfolding P_def by (intro exI [of _ 0]) simp
    next
      case True
      with eq have "f X (tasklets_process X s) = Some s'"
        by (simp add: tasklets_pending_def tasklets_process_def)
      then have "P X (tasklets_process X s) s'" by (rule IH)
      then obtain n where n:
        "\<forall>i<n. tasklets_pending X ((tasklets_process X ^^ i) (tasklets_process X s))"
        "\<not> tasklets_pending X ((tasklets_process X ^^ n) (tasklets_process X s))"
        "s' = (tasklets_process X ^^ n) (tasklets_process X s)"
        unfolding P_def by blast
      have "\<forall>i<Suc n. tasklets_pending X ((tasklets_process X ^^ i) s)"
      proof (intro allI impI)
        fix i assume "i < Suc n"
        show "tasklets_pending X ((tasklets_process X ^^ i) s)"
        proof (cases i)
          case 0
          with True show ?thesis by simp
        next
          case (Suc j)
          with \<open>i < Suc n\<close> n(1) show ?thesis by (simp add: funpow_swap1)
        qed
      qed
      with n(2,3) show ?thesis
        unfolding P_def by (intro exI [of _ "Suc n"]) (simp add: funpow_swap1)
    qed
  qed
  then show ?thesis by (simp add: P_def)
qed

lemma drain_tasklets_Some_iff:
  "drain_tasklets X s = Some s' \<longleftrightarrow>
   (\<exists>n. (\<forall>i<n. tasklets_pending X ((tasklets_process X ^^ i) s)) \<and>
        \<not> tasklets_pending X ((tasklets_process X ^^ n) s) \<and> s' = (tasklets_process X ^^ n) s)"
proof
  assume "drain_tasklets X s = Some s'"
  then show "\<exists>n. (\<forall>i<n. tasklets_pending X ((tasklets_process X ^^ i) s)) \<and>
        \<not> tasklets_pending X ((tasklets_process X ^^ n) s) \<and> s' = (tasklets_process X ^^ n) s"
    by (rule drain_tasklets_Some_D)
next
  assume "\<exists>n. (\<forall>i<n. tasklets_pending X ((tasklets_process X ^^ i) s)) \<and>
        \<not> tasklets_pending X ((tasklets_process X ^^ n) s) \<and> s' = (tasklets_process X ^^ n) s"
  then obtain n where n: "\<forall>i<n. tasklets_pending X ((tasklets_process X ^^ i) s)"
    "\<not> tasklets_pending X ((tasklets_process X ^^ n) s)" "s' = (tasklets_process X ^^ n) s"
    by blast
  from n(1) have "drain_tasklets X s = drain_tasklets X ((tasklets_process X ^^ n) s)"
    by (rule drain_tasklets_funpow)
  also from n(2) have "\<dots> = Some ((tasklets_process X ^^ n) s)"
    by (rule drain_tasklets_done)
  finally show "drain_tasklets X s = Some s'" using n(3) by simp
qed

lemma tasklets_process_fields [simp]:
  "event_pid (tasklets_process X s) = event_pid s"
  "sInstance (tasklets_process X s) = sInstance s"
  "ot_task_pid (tasklets_process X s) = ot_task_pid s"
  "otTaskPending (tasklets_process X s) = otTaskPending s"
  "serial_mem (tasklets_process X s) = serial_mem s"
  "job_mem (tasklets_process X s) = job_mem s"
  "pending_irq (tasklets_process X s) = pending_irq s"
  "trace (tasklets_process X s) = trace s @ [otTaskletsProcess (sInstance s)]"
  by (simp_all add: tasklets_process_def openthread_get_instance_def)

lemma tasklets_process_funpow_fields:
  "event_pid ((tasklets_process X ^^ n) s) = event_pid s \<and>
   sInstance ((tasklets_process X ^^ n) s) = sInstance s \<and>
   ot_task_pid ((tasklets_process X ^^ n) s) = ot_task_pid s \<and>
   otTaskPending ((tasklets_process X ^^ n) s) = otTaskPending s \<and>
   serial_mem ((tasklets_process X ^^ n) s) = serial_mem s \<and>
   job_mem ((tasklets_process X ^^ n) s) = job_mem s \<and>
   pending_irq ((tasklets_process X ^^ n) s) = pending_irq s \<and>
   trace ((tasklets_process X ^^ n) s) = trace s @ replicate n (otTaskletsProcess (sInstance s))"
  by (induction n) (simp_all add: replicate_append_same)

lemma drain_tasklets_fields:
  assumes "drain_tasklets X s = Some s'"
  shows "event_pid s' = event_pid s \<and> sInstance s' = sInstance s \<and>
         ot_task_pid s' = ot_task_pid s \<and> otTaskPending s' = otTaskPending s \<and>
         serial_mem s' = serial_mem s \<and> job_mem s' = job_mem s \<and>
         pending_irq s' = pending_irq s \<and>
         (\<exists>n. trace s' = trace s @ replicate n (otTaskletsProcess (sInstance s)))"
proof -
  from drain_tasklets_Some_D [OF assms]
  obtain n where "s' = (tasklets_process X ^^ n) s" by blast
  then show ?thesis
    using tasklets_process_funpow_fields [of n X s] by blast
qed

subsection \<open>The turns of the two threads\<close>

lemma event_switch_trace:
  "trace (event_switch cfg X msg s) = trace s @ new_actions s (event_switch cfg X msg s)"
  by (simp add: event_switch_def Let_def new_actions_def)

lemma task_switch_trace:
  "trace (task_switch cfg X msg s) = trace s @ new_actions s (task_switch cfg X msg s)"
  by (simp add: task_switch_def Let_def new_actions_def)

lemma event_iteration_SomeD:
  assumes "event_iteration cfg X s = Some s'"
  obtains s1 where "drain_tasklets X s = Some s1"
    and "s' = event_switch cfg X (msg_receive_ret X (env s1)) (call X msg_receive s1)"
  using assms by (auto simp: event_iteration_def split: option.splits)

lemma task_iteration_SomeD:
  assumes "task_iteration cfg X s = Some s'"
  obtains s3 s4 where
    "s3 = task_switch cfg X (msg_receive_ret X (env s))
            (call X openthread_coarse_lock_buffer_mutex (call X msg_receive s))"
    and "drain_tasklets X s3 = Some s4"
    and "s' = call X openthread_coarse_unlock_buffer_mutex s4"
  using assms by (auto simp: task_iteration_def Let_def split: option.splits)

lemma event_iteration_trace:
  assumes "event_iteration cfg X s = Some s'"
  obtains n s1 where "drain_tasklets X s = Some s1"
    and "s1 = (tasklets_process X ^^ n) s"
    and "s' = event_switch cfg X (msg_receive_ret X (env s1)) (call X msg_receive s1)"
    and "new_actions s s' = replicate n (otTaskletsProcess (sInstance s)) @ [msg_receive]
           @ new_actions (call X msg_receive s1) s'"
proof -
  from assms obtain s1 where d: "drain_tasklets X s = Some s1"
    and s': "s' = event_switch cfg X (msg_receive_ret X (env s1)) (call X msg_receive s1)"
    by (rule event_iteration_SomeD)
  from drain_tasklets_Some_D [OF d] obtain n where n: "s1 = (tasklets_process X ^^ n) s"
    by blast
  have t: "trace s1 = trace s @ replicate n (otTaskletsProcess (sInstance s))"
    using tasklets_process_funpow_fields [of n X s] n by simp
  have "trace s' = trace s @ replicate n (otTaskletsProcess (sInstance s)) @ [msg_receive]
          @ new_actions (call X msg_receive s1) s'"
    using event_switch_trace [of cfg X "msg_receive_ret X (env s1)" "call X msg_receive s1"] t
    by (simp add: s')
  then have "new_actions s s' = replicate n (otTaskletsProcess (sInstance s)) @ [msg_receive]
          @ new_actions (call X msg_receive s1) s'"
    by (rule new_actions_append)
  with d n s' show thesis by (rule that)
qed

lemma task_iteration_trace:
  assumes "task_iteration cfg X s = Some s'"
  obtains n s2 s3 s4 where
    "s2 = call X openthread_coarse_lock_buffer_mutex (call X msg_receive s)"
    and "s3 = task_switch cfg X (msg_receive_ret X (env s)) s2"
    and "drain_tasklets X s3 = Some s4"
    and "s' = call X openthread_coarse_unlock_buffer_mutex s4"
    and "new_actions s s' = [msg_receive, openthread_coarse_lock_buffer_mutex]
           @ new_actions s2 s3 @ replicate n (otTaskletsProcess (sInstance s3))
           @ [openthread_coarse_unlock_buffer_mutex]"
proof -
  define s2 where "s2 = call X openthread_coarse_lock_buffer_mutex (call X msg_receive s)"
  from assms obtain s3 s4 where s3: "s3 = task_switch cfg X (msg_receive_ret X (env s)) s2"
    and d: "drain_tasklets X s3 = Some s4"
    and s': "s' = call X openthread_coarse_unlock_buffer_mutex s4"
    unfolding s2_def by (rule task_iteration_SomeD)
  from drain_tasklets_fields [OF d] obtain n where
    t: "trace s4 = trace s3 @ replicate n (otTaskletsProcess (sInstance s3))"
    by blast
  have "trace s' = trace s @ [msg_receive, openthread_coarse_lock_buffer_mutex]
          @ new_actions s2 s3 @ replicate n (otTaskletsProcess (sInstance s3))
          @ [openthread_coarse_unlock_buffer_mutex]"
    using task_switch_trace [of cfg X "msg_receive_ret X (env s)" s2] t
    by (simp add: s' s3 s2_def)
  then have "new_actions s s' = [msg_receive, openthread_coarse_lock_buffer_mutex]
          @ new_actions s2 s3 @ replicate n (otTaskletsProcess (sInstance s3))
          @ [openthread_coarse_unlock_buffer_mutex]"
    by (rule new_actions_append)
  with s2_def s3 d s' show thesis by (rule that)
qed

lemma task_iteration_extends:
  assumes "task_iteration cfg X s = Some s'"
  shows "trace s' = trace s @ new_actions s s'"
proof -
  from assms obtain s3 s4 where
    s3: "s3 = task_switch cfg X (msg_receive_ret X (env s))
            (call X openthread_coarse_lock_buffer_mutex (call X msg_receive s))"
    and d: "drain_tasklets X s3 = Some s4"
    and s': "s' = call X openthread_coarse_unlock_buffer_mutex s4"
    by (rule task_iteration_SomeD)
  from drain_tasklets_fields [OF d] obtain n where
    "trace s4 = trace s3 @ replicate n (otTaskletsProcess (sInstance s3))"
    by blast
  then have "trace s' = trace s @ [msg_receive, openthread_coarse_lock_buffer_mutex]
          @ new_actions (call X openthread_coarse_lock_buffer_mutex (call X msg_receive s)) s3
          @ replicate n (otTaskletsProcess (sInstance s3))
          @ [openthread_coarse_unlock_buffer_mutex]"
    using task_switch_trace [of cfg X "msg_receive_ret X (env s)"
            "call X openthread_coarse_lock_buffer_mutex (call X msg_receive s)"]
    by (simp add: s' s3)
  then show ?thesis
    by (rule new_actions_extends)
qed

lemma event_iteration_None_iff:
  "event_iteration cfg X s = None \<longleftrightarrow> drain_tasklets X s = None"
  by (simp add: event_iteration_def split: option.splits)

lemma task_iteration_None_iff:
  "task_iteration cfg X s = None \<longleftrightarrow>
   drain_tasklets X (task_switch cfg X (msg_receive_ret X (env s))
      (call X openthread_coarse_lock_buffer_mutex (call X msg_receive s))) = None"
  by (simp add: task_iteration_def Let_def split: option.splits)

lemma task_switch_sInstance:
  "sInstance (task_switch cfg X msg s) = sInstance s"
  by (simp add: task_switch_def Let_def)

lemma task_iteration_eq:
  "task_iteration cfg X s =
     map_option (call X openthread_coarse_unlock_buffer_mutex)
       (drain_tasklets X (task_switch cfg X (msg_receive_ret X (env s))
          (call X openthread_coarse_lock_buffer_mutex (call X msg_receive s))))"
  by (simp add: task_iteration_def Let_def split: option.splits)

lemma task_drain_state:
  assumes "s2 = call X openthread_coarse_lock_buffer_mutex (call X msg_receive s)"
    and "s3 = task_switch cfg X m s2"
  shows "trace ((tasklets_process X ^^ k) s3) =
           trace s @ [msg_receive, openthread_coarse_lock_buffer_mutex] @ new_actions s2 s3
             @ replicate k (otTaskletsProcess (openthread_get_instance s))"
proof -
  have "trace s3 = trace s2 @ new_actions s2 s3"
    unfolding assms(2) by (rule task_switch_trace)
  moreover have "sInstance s3 = sInstance s"
    by (simp add: assms task_switch_sInstance)
  ultimately show ?thesis
    using tasklets_process_funpow_fields [of k X s3]
    by (simp add: assms(1) openthread_get_instance_def)
qed

lemma task_iteration_Some_iff:
  assumes "s2 = call X openthread_coarse_lock_buffer_mutex (call X msg_receive s)"
    and "s3 = task_switch cfg X (msg_receive_ret X (env s)) s2"
  shows "task_iteration cfg X s = Some s' \<longleftrightarrow>
     (\<exists>n. (\<forall>i<n. tasklets_pending X ((tasklets_process X ^^ i) s3)) \<and>
          \<not> tasklets_pending X ((tasklets_process X ^^ n) s3) \<and>
          s' = call X openthread_coarse_unlock_buffer_mutex ((tasklets_process X ^^ n) s3) \<and>
          new_actions s s' =
            [msg_receive, openthread_coarse_lock_buffer_mutex] @ new_actions s2 s3
              @ replicate n (otTaskletsProcess (openthread_get_instance s))
              @ [openthread_coarse_unlock_buffer_mutex])"
  (is "?L \<longleftrightarrow> ?R")
proof
  assume ?L
  then obtain s4 where d: "drain_tasklets X s3 = Some s4"
    and s': "s' = call X openthread_coarse_unlock_buffer_mutex s4"
    unfolding assms by (rule task_iteration_SomeD) simp
  from drain_tasklets_Some_D [OF d] obtain n where
    n: "\<forall>i<n. tasklets_pending X ((tasklets_process X ^^ i) s3)"
       "\<not> tasklets_pending X ((tasklets_process X ^^ n) s3)"
       "s4 = (tasklets_process X ^^ n) s3"
    by blast
  have "trace s' = trace s @ [msg_receive, openthread_coarse_lock_buffer_mutex]
          @ new_actions s2 s3 @ replicate n (otTaskletsProcess (openthread_get_instance s))
          @ [openthread_coarse_unlock_buffer_mutex]"
    using task_drain_state [OF assms(1), of s3 cfg "msg_receive_ret X (env s)" n] assms(2)
    by (simp add: s' n(3))
  then have "new_actions s s' = [msg_receive, openthread_coarse_lock_buffer_mutex]
          @ new_actions s2 s3 @ replicate n (otTaskletsProcess (openthread_get_instance s))
          @ [openthread_coarse_unlock_buffer_mutex]"
    by (rule new_actions_append)
  with n s' show ?R by (intro exI [of _ n]) simp
next
  assume ?R
  then obtain n where n: "\<forall>i<n. tasklets_pending X ((tasklets_process X ^^ i) s3)"
    "\<not> tasklets_pending X ((tasklets_process X ^^ n) s3)"
    "s' = call X openthread_coarse_unlock_buffer_mutex ((tasklets_process X ^^ n) s3)"
    by blast
  from n(1,2) have "drain_tasklets X s3 = Some ((tasklets_process X ^^ n) s3)"
    using drain_tasklets_Some_iff by blast
  with n(3) show ?L
    by (simp add: task_iteration_eq assms)
qed

section \<open>Starting the workers\<close>

text \<open>
  Claim C1, as amended. Let \<open>r\<close> be what \<^verbatim>\<open>thread_create\<close> returns. Each of
  \<^verbatim>\<open>openthread_event_init\<close> and \<^verbatim>\<open>openthread_task_init\<close> returns \<^verbatim>\<open>-EINVAL\<close> when \<open>r\<close>
  is not positive and \<open>r\<close>, the new worker identifier, otherwise; in both cases the
  pid accessor of that worker returns \<open>r\<close> afterwards, because \<open>r\<close> is stored in the
  static before it is tested. After a failure the accessor therefore returns the
  non-positive result of \<^verbatim>\<open>thread_create\<close>, which is no valid worker identifier, and
  not the value it returned before the call.
\<close>

theorem worker_init_result:
  assumes "re = thread_create_ret X (thread_create stack stacksize priority
                  (THREAD_CREATE_STACKTEST cfg) Openthread_event_thread name) (env s)"
      and "rt = thread_create_ret X (thread_create stack stacksize priority
                  (THREAD_CREATE_STACKTEST cfg) Openthread_task_thread name) (env s)"
  shows "fst (openthread_event_init cfg X stack stacksize priority name s)
           = (if re \<le> 0 then - EINVAL cfg else re)
       \<and> openthread_get_event_pid (snd (openthread_event_init cfg X stack stacksize priority name s)) = re
       \<and> fst (openthread_task_init cfg X stack stacksize priority name s)
           = (if rt \<le> 0 then - EINVAL cfg else rt)
       \<and> openthread_get_task_pid (snd (openthread_task_init cfg X stack stacksize priority name s)) = rt"
  using assms
  by (simp add: openthread_event_init_def openthread_task_init_def Let_def
        openthread_get_event_pid_def openthread_get_task_pid_def)

theorem worker_init_result_witness:
  "fst (openthread_event_init demo_config demo_extern 0x20000100 1024 5 ''ot_event''
          (boot (demo_world 1 (- 75) 0 []))) = - 22
   \<and> openthread_get_event_pid (snd (openthread_event_init demo_config demo_extern 0x20000100 1024 5
          ''ot_event'' (boot (demo_world 1 (- 75) 0 [])))) = - 75
   \<and> fst (openthread_task_init demo_config demo_extern 0x20000500 1024 6 ''ot_task''
          (boot (demo_world 1 4 0 []))) = 4
   \<and> openthread_get_task_pid (snd (openthread_task_init demo_config demo_extern 0x20000500 1024 6
          ''ot_task'' (boot (demo_world 1 4 0 [])))) = 4"
  using worker_init_result [of "- 75" demo_extern "0x20000100" 1024 5 demo_config "''ot_event''"
          "boot (demo_world 1 (- 75) 0 [])" "- 75"]
        worker_init_result [of 4 demo_extern "0x20000500" 1024 6 demo_config "''ot_task''"
          "boot (demo_world 1 4 0 [])" 4]
  by (simp add: boot_def demo_world_def demo_extern_def demo_config_def)

text \<open>
  The claim as first stated fails: with a \<^verbatim>\<open>thread_create\<close> that fails with -22, the
  call returns \<^verbatim>\<open>-EINVAL\<close>, and the accessor, which returned the unset value 0 before,
  returns -22 afterwards.
\<close>

theorem worker_init_failure_counterexample:
  "thread_create_ret demo_extern
       (thread_create 0x20000100 1024 5 (THREAD_CREATE_STACKTEST demo_config)
          Openthread_event_thread ''ot_event'') (demo_world 1 (- 22) 0 []) \<le> 0
   \<and> fst (openthread_event_init demo_config demo_extern 0x20000100 1024 5 ''ot_event''
          (boot (demo_world 1 (- 22) 0 []))) = - EINVAL demo_config
   \<and> openthread_get_event_pid (boot (demo_world 1 (- 22) 0 [])) = 0
   \<and> openthread_get_event_pid (snd (openthread_event_init demo_config demo_extern 0x20000100 1024 5
          ''ot_event'' (boot (demo_world 1 (- 22) 0 [])))) = - 22
   \<and> openthread_get_event_pid (snd (openthread_event_init demo_config demo_extern 0x20000100 1024 5
          ''ot_event'' (boot (demo_world 1 (- 22) 0 []))))
       \<noteq> openthread_get_event_pid (boot (demo_world 1 (- 22) 0 []))"
  by (simp add: openthread_event_init_def Let_def openthread_get_event_pid_def
        boot_def demo_world_def demo_extern_def demo_config_def)

section \<open>The pending-task flag\<close>

lemma flag_untouched_drain:
  "drain_tasklets X s = Some s' \<Longrightarrow> flag_untouched s s'"
  using drain_tasklets_fields [of X s s'] by (auto simp: flag_untouched_def new_actions_def)

lemma flag_untouched_event_switch: "flag_untouched s (event_switch cfg X msg s)"
  by (simp add: flag_untouched_def event_switch_def Let_def new_actions_def)

lemma task_switch_flag:
  "otTaskPending (task_switch cfg X msg s) =
     (if type msg = OPENTHREAD_TASK_MSG_TYPE_EVENT cfg then False else otTaskPending s)"
  by (simp add: task_switch_def Let_def)

lemma task_switch_stores:
  "store_otTaskPending b \<in> set (new_actions s (task_switch cfg X msg s)) \<longleftrightarrow>
     type msg = OPENTHREAD_TASK_MSG_TYPE_EVENT cfg \<and> \<not> b"
  by (simp add: task_switch_def Let_def new_actions_def)

lemma flag_untouched_event_iteration:
  assumes "event_iteration cfg X s = Some s'"
  shows "flag_untouched s s'"
proof -
  from assms obtain s1 where d: "drain_tasklets X s = Some s1"
    and s': "s' = event_switch cfg X (msg_receive_ret X (env s1)) (call X msg_receive s1)"
    by (rule event_iteration_SomeD)
  from drain_tasklets_fields [OF d] obtain n where
    f: "otTaskPending s1 = otTaskPending s"
    and t: "trace s1 = trace s @ replicate n (otTaskletsProcess (sInstance s))"
    by blast
  define m where "m = msg_receive_ret X (env s1)"
  define r where "r = call X msg_receive s1"
  have sw: "flag_untouched r (event_switch cfg X m r)"
    by (rule flag_untouched_event_switch)
  have "trace s' = trace s @ replicate n (otTaskletsProcess (sInstance s)) @ [msg_receive]
          @ new_actions r (event_switch cfg X m r)"
    using event_switch_trace [of cfg X m r] t by (simp add: s' m_def r_def)
  then have "new_actions s s' = replicate n (otTaskletsProcess (sInstance s)) @ [msg_receive]
          @ new_actions r (event_switch cfg X m r)"
    by (rule new_actions_append)
  moreover have "otTaskPending s' = otTaskPending s"
    using sw f by (simp add: flag_untouched_def s' m_def r_def)
  ultimately show ?thesis
    using sw by (auto simp: flag_untouched_def)
qed

lemma task_iteration_flag:
  assumes "task_iteration cfg X s = Some s'"
  shows "otTaskPending s' =
           (if type (msg_receive_ret X (env s)) = OPENTHREAD_TASK_MSG_TYPE_EVENT cfg
            then False else otTaskPending s)
       \<and> (store_otTaskPending b \<in> set (new_actions s s') \<longleftrightarrow>
            type (msg_receive_ret X (env s)) = OPENTHREAD_TASK_MSG_TYPE_EVENT cfg \<and> \<not> b)"
proof -
  define m where "m = msg_receive_ret X (env s)"
  define s2 where "s2 = call X openthread_coarse_lock_buffer_mutex (call X msg_receive s)"
  from assms obtain s3 s4 where s3: "s3 = task_switch cfg X m s2"
    and d: "drain_tasklets X s3 = Some s4"
    and s': "s' = call X openthread_coarse_unlock_buffer_mutex s4"
    unfolding m_def s2_def by (rule task_iteration_SomeD)
  from drain_tasklets_fields [OF d] obtain n where
    f: "otTaskPending s4 = otTaskPending s3"
    and t: "trace s4 = trace s3 @ replicate n (otTaskletsProcess (sInstance s3))"
    by blast
  have "trace s' = trace s @ [msg_receive, openthread_coarse_lock_buffer_mutex]
          @ new_actions s2 (task_switch cfg X m s2)
          @ replicate n (otTaskletsProcess (sInstance s3))
          @ [openthread_coarse_unlock_buffer_mutex]"
    using task_switch_trace [of cfg X m s2] t by (simp add: s' s3 s2_def)
  then have "new_actions s s' = [msg_receive, openthread_coarse_lock_buffer_mutex]
          @ new_actions s2 (task_switch cfg X m s2)
          @ replicate n (otTaskletsProcess (sInstance s3))
          @ [openthread_coarse_unlock_buffer_mutex]"
    by (rule new_actions_append)
  moreover have "otTaskPending s' =
      (if type m = OPENTHREAD_TASK_MSG_TYPE_EVENT cfg then False else otTaskPending s)"
    using f by (simp add: s' s3 task_switch_flag s2_def)
  ultimately show ?thesis
    using task_switch_stores [of b s2 cfg X m] by (auto simp: m_def)
qed

lemma flag_untouched_others:
  "flag_untouched s (otTaskletsSignalPending cfg X aInstance s)"
  "flag_untouched s (openthread_event_thread_startup cfg X s)"
  "flag_untouched s (openthread_task_thread_startup X s)"
  "flag_untouched s (snd (openthread_event_init cfg X stack stacksize priority name s))"
  "flag_untouched s (snd (openthread_task_init cfg X stack stacksize priority name s))"
  by (simp_all add: flag_untouched_def otTaskletsSignalPending_def
        openthread_event_thread_startup_def openthread_task_thread_startup_def
        openthread_event_init_def openthread_task_init_def Let_def new_actions_def)

lemma task_switch_task_case:
  "type msg = OPENTHREAD_TASK_MSG_TYPE_EVENT cfg \<Longrightarrow>
   new_actions s (task_switch cfg X msg s) = [store_otTaskPending False]"
  by (simp add: task_switch_def new_actions_def)

lemma flag_untouched_task_switch:
  "type msg \<noteq> OPENTHREAD_TASK_MSG_TYPE_EVENT cfg \<Longrightarrow>
   flag_untouched s (task_switch cfg X msg s)"
  using task_switch_stores [of True s cfg X msg] task_switch_stores [of False s cfg X msg]
  by (simp add: flag_untouched_def task_switch_flag)

lemma flag_untouched_drain_steps:
  "flag_untouched s ((tasklets_process X ^^ k) s)
   \<and> new_actions s ((tasklets_process X ^^ k) s) = replicate k (otTaskletsProcess (sInstance s))"
proof -
  have "new_actions s ((tasklets_process X ^^ k) s) = replicate k (otTaskletsProcess (sInstance s))"
    using tasklets_process_funpow_fields [of k X s] by (intro new_actions_append) simp
  then show ?thesis
    using tasklets_process_funpow_fields [of k X s] by (simp add: flag_untouched_def)
qed

lemma flag_untouched_task_turn_rest:
  assumes "drain_tasklets X s3 = Some s4"
    and "s' = call X openthread_coarse_unlock_buffer_mutex s4"
  shows "flag_untouched s3 s'"
proof -
  from drain_tasklets_fields [OF assms(1)] obtain n where
    f: "otTaskPending s4 = otTaskPending s3"
    and t: "trace s4 = trace s3 @ replicate n (otTaskletsProcess (sInstance s3))"
    by blast
  have "trace s' = trace s3 @ replicate n (otTaskletsProcess (sInstance s3))
          @ [openthread_coarse_unlock_buffer_mutex]"
    by (simp add: assms(2) t)
  then have "new_actions s3 s' = replicate n (otTaskletsProcess (sInstance s3))
          @ [openthread_coarse_unlock_buffer_mutex]"
    by (rule new_actions_append)
  then show ?thesis
    using f by (simp add: flag_untouched_def assms(2))
qed

text \<open>
  Claim C2, as amended. Let \<open>s2\<close> be the state of a turn of the Task thread after the
  receive and the lock, and \<open>s3\<close> the state after the switch, that is, at the start
  of the drain. The Task thread clears \<^verbatim>\<open>otTaskPending\<close> exactly when it begins to
  process a tasklet-pending message: for such a message the switch is the store of
  false to the flag and nothing else, right after the lock and before any call of
  the drain, and for every other message the switch leaves the flag alone; so at
  the start of the drain the flag is false if the message had that tag and has its
  old value otherwise. This holds whether or not the drain ends. No step of the
  drain and no unlock writes the flag, so a completed turn ends with the flag as it
  was at the start of the drain. Nothing in the two files sets the flag to true:
  \<^verbatim>\<open>otTaskletsSignalPending\<close> does not write it (it only posts a message), and neither
  do a turn of the Event thread, the start-up code of either thread or the two init
  functions.
\<close>

theorem otTaskPending_writes:
  assumes "m = msg_receive_ret X (env s)"
    and "s2 = call X openthread_coarse_lock_buffer_mutex (call X msg_receive s)"
    and "s3 = task_switch cfg X m s2"
  shows
   "task_iteration cfg X s =
      map_option (call X openthread_coarse_unlock_buffer_mutex) (drain_tasklets X s3)
    \<and> otTaskPending s2 = otTaskPending s
    \<and> new_actions s s2 = [msg_receive, openthread_coarse_lock_buffer_mutex]
    \<and> otTaskPending s3 =
        (if type m = OPENTHREAD_TASK_MSG_TYPE_EVENT cfg then False else otTaskPending s)
    \<and> (type m = OPENTHREAD_TASK_MSG_TYPE_EVENT cfg \<longrightarrow>
          new_actions s2 s3 = [store_otTaskPending False])
    \<and> (type m \<noteq> OPENTHREAD_TASK_MSG_TYPE_EVENT cfg \<longrightarrow> flag_untouched s2 s3)
    \<and> (\<forall>k. flag_untouched s3 ((tasklets_process X ^^ k) s3)
           \<and> new_actions s3 ((tasklets_process X ^^ k) s3) =
               replicate k (otTaskletsProcess (openthread_get_instance s)))
    \<and> (\<forall>s'. task_iteration cfg X s = Some s' \<longrightarrow>
           flag_untouched s3 s'
         \<and> (\<exists>n. new_actions s s' =
                  [msg_receive, openthread_coarse_lock_buffer_mutex] @ new_actions s2 s3
                    @ replicate n (otTaskletsProcess (openthread_get_instance s))
                    @ [openthread_coarse_unlock_buffer_mutex])
         \<and> otTaskPending s' =
             (if type m = OPENTHREAD_TASK_MSG_TYPE_EVENT cfg then False else otTaskPending s)
         \<and> (\<forall>b. store_otTaskPending b \<in> set (new_actions s s') \<longleftrightarrow>
                type m = OPENTHREAD_TASK_MSG_TYPE_EVENT cfg \<and> \<not> b))
    \<and> flag_untouched s (otTaskletsSignalPending cfg X aInstance s)
    \<and> (\<forall>s'. event_iteration cfg X s = Some s' \<longrightarrow> flag_untouched s s')
    \<and> flag_untouched s (openthread_event_thread_startup cfg X s)
    \<and> flag_untouched s (openthread_task_thread_startup X s)
    \<and> flag_untouched s (snd (openthread_event_init cfg X stack stacksize priority name s))
    \<and> flag_untouched s (snd (openthread_task_init cfg X stack stacksize priority name s))"
proof (intro conjI allI impI)
  show "task_iteration cfg X s =
      map_option (call X openthread_coarse_unlock_buffer_mutex) (drain_tasklets X s3)"
    unfolding assms by (rule task_iteration_eq)
  show "otTaskPending s2 = otTaskPending s"
    by (simp add: assms(2))
  show "new_actions s s2 = [msg_receive, openthread_coarse_lock_buffer_mutex]"
    by (rule new_actions_append) (simp add: assms(2))
  show "otTaskPending s3 =
        (if type m = OPENTHREAD_TASK_MSG_TYPE_EVENT cfg then False else otTaskPending s)"
    by (simp add: assms(2,3) task_switch_flag)
  show "flag_untouched s (otTaskletsSignalPending cfg X aInstance s)"
    "flag_untouched s (openthread_event_thread_startup cfg X s)"
    "flag_untouched s (openthread_task_thread_startup X s)"
    "flag_untouched s (snd (openthread_event_init cfg X stack stacksize priority name s))"
    "flag_untouched s (snd (openthread_task_init cfg X stack stacksize priority name s))"
    by (rule flag_untouched_others)+
next
  assume "type m = OPENTHREAD_TASK_MSG_TYPE_EVENT cfg"
  then show "new_actions s2 s3 = [store_otTaskPending False]"
    unfolding assms(3) by (rule task_switch_task_case)
next
  assume "type m \<noteq> OPENTHREAD_TASK_MSG_TYPE_EVENT cfg"
  then show "flag_untouched s2 s3"
    unfolding assms(3) by (rule flag_untouched_task_switch)
next
  fix k
  have i: "sInstance s3 = sInstance s"
    by (simp add: assms(2,3) task_switch_sInstance)
  note h = flag_untouched_drain_steps [where s = s3 and X = X and k = k]
  show "flag_untouched s3 ((tasklets_process X ^^ k) s3)"
    using h by (rule conjunct1)
  show "new_actions s3 ((tasklets_process X ^^ k) s3) =
               replicate k (otTaskletsProcess (openthread_get_instance s))"
    using h by (simp add: i openthread_get_instance_def)
next
  fix s' assume it: "task_iteration cfg X s = Some s'"
  from it obtain t3 s4 where t3: "t3 = task_switch cfg X (msg_receive_ret X (env s))
            (call X openthread_coarse_lock_buffer_mutex (call X msg_receive s))"
    and d: "drain_tasklets X t3 = Some s4"
    and s': "s' = call X openthread_coarse_unlock_buffer_mutex s4"
    by (rule task_iteration_SomeD)
  have e: "t3 = s3" by (simp add: t3 assms)
  show "flag_untouched s3 s'"
    using d s' unfolding e by (rule flag_untouched_task_turn_rest)
  show "\<exists>n. new_actions s s' =
                  [msg_receive, openthread_coarse_lock_buffer_mutex] @ new_actions s2 s3
                    @ replicate n (otTaskletsProcess (openthread_get_instance s))
                    @ [openthread_coarse_unlock_buffer_mutex]"
    using task_iteration_Some_iff [OF assms(2) assms(3) [unfolded assms(1)], of s'] it
    by blast
  show "otTaskPending s' =
             (if type m = OPENTHREAD_TASK_MSG_TYPE_EVENT cfg then False else otTaskPending s)"
    using task_iteration_flag [OF it] by (simp add: assms(1))
  fix b
  show "store_otTaskPending b \<in> set (new_actions s s') \<longleftrightarrow>
                type m = OPENTHREAD_TASK_MSG_TYPE_EVENT cfg \<and> \<not> b"
    using task_iteration_flag [OF it, of b] by (simp add: assms(1))
next
  fix s' assume "event_iteration cfg X s = Some s'"
  then show "flag_untouched s s'"
    by (rule flag_untouched_event_iteration)
qed

theorem otTaskPending_writes_witness:
  "type (msg_receive_ret demo_extern
           (env ((started (demo_world 5 0 1 [demo_msg 0x2235 0]))\<lparr>otTaskPending := True\<rparr>)))
     = OPENTHREAD_TASK_MSG_TYPE_EVENT demo_config
   \<and> new_actions
        (call demo_extern openthread_coarse_lock_buffer_mutex (call demo_extern msg_receive
           ((started (demo_world 5 0 1 [demo_msg 0x2235 0]))\<lparr>otTaskPending := True\<rparr>)))
        (task_switch demo_config demo_extern (demo_msg 0x2235 0)
           (call demo_extern openthread_coarse_lock_buffer_mutex (call demo_extern msg_receive
              ((started (demo_world 5 0 1 [demo_msg 0x2235 0]))\<lparr>otTaskPending := True\<rparr>))))
      = [store_otTaskPending False]
   \<and> \<not> otTaskPending
        (task_switch demo_config demo_extern (demo_msg 0x2235 0)
           (call demo_extern openthread_coarse_lock_buffer_mutex (call demo_extern msg_receive
              ((started (demo_world 5 0 1 [demo_msg 0x2235 0]))\<lparr>otTaskPending := True\<rparr>))))
   \<and> map_option otTaskPending
     (task_iteration demo_config demo_extern
        ((started (demo_world 5 0 1 [demo_msg 0x2235 0]))\<lparr>otTaskPending := True\<rparr>)) = Some False
   \<and> map_option otTaskPending
     (task_iteration demo_config demo_extern
        ((started (demo_world 5 0 1 [demo_msg 0x2237 0]))\<lparr>otTaskPending := True\<rparr>)) = Some True
   \<and> otTaskPending (otTaskletsSignalPending demo_config demo_extern 0x20001000
        ((started (demo_world 5 0 1 []))\<lparr>otTaskPending := True\<rparr>))
   \<and> map_option otTaskPending
     (event_iteration demo_config demo_extern
        ((started (demo_world 7 0 1 [demo_msg 0x2235 0]))\<lparr>otTaskPending := True\<rparr>)) = Some True"
proof -
  define S where "S = (started (demo_world 5 0 1 [demo_msg 0x2235 0]))\<lparr>otTaskPending := True\<rparr>"
  define S2 where "S2 = call demo_extern openthread_coarse_lock_buffer_mutex
                          (call demo_extern msg_receive S)"
  have m: "msg_receive_ret demo_extern (env S) = demo_msg 0x2235 0"
    by (simp add: S_def started_def boot_def demo_world_def demo_extern_def
          demo_msg_receive_ret_def)
  have ty: "type (msg_receive_ret demo_extern (env S)) = OPENTHREAD_TASK_MSG_TYPE_EVENT demo_config"
    by (simp add: m demo_msg_def demo_config_def)
  note T = otTaskPending_writes [OF refl S2_def refl, where cfg = demo_config]
  have sw: "new_actions S2 (task_switch demo_config demo_extern
              (msg_receive_ret demo_extern (env S)) S2) = [store_otTaskPending False]"
    using ty
    by (rule T [THEN conjunct2, THEN conjunct2, THEN conjunct2, THEN conjunct2, THEN conjunct1,
          rule_format])
  have f: "\<not> otTaskPending (task_switch demo_config demo_extern
              (msg_receive_ret demo_extern (env S)) S2)"
    using T [THEN conjunct2, THEN conjunct2, THEN conjunct2, THEN conjunct1] ty by simp
  have rest: "map_option otTaskPending
     (task_iteration demo_config demo_extern
        ((started (demo_world 5 0 1 [demo_msg 0x2235 0]))\<lparr>otTaskPending := True\<rparr>)) = Some False
   \<and> map_option otTaskPending
     (task_iteration demo_config demo_extern
        ((started (demo_world 5 0 1 [demo_msg 0x2237 0]))\<lparr>otTaskPending := True\<rparr>)) = Some True
   \<and> otTaskPending (otTaskletsSignalPending demo_config demo_extern 0x20001000
        ((started (demo_world 5 0 1 []))\<lparr>otTaskPending := True\<rparr>))
   \<and> map_option otTaskPending
     (event_iteration demo_config demo_extern
        ((started (demo_world 7 0 1 [demo_msg 0x2235 0]))\<lparr>otTaskPending := True\<rparr>)) = Some True"
    by (simp add: task_iteration_def event_iteration_def Let_def drain_tasklets.simps
        task_switch_def event_switch_def otTaskletsSignalPending_def
        openthread_get_instance_def openthread_get_event_pid_def
        started_def boot_def demo_world_def demo_msg_def demo_extern_def demo_config_def
        demo_effect_def demo_msg_receive_ret_def call_def write_otTaskPending_def
        record_store_def)
  show ?thesis
    using ty sw [unfolded m S2_def] f [unfolded m S2_def] rest
    unfolding S_def by (intro conjI) (elim conjE, assumption)+
qed

text \<open>
  The claim as first stated fails: the flag is false, the callback runs on the Task
  thread and posts its message, and the flag is still false.
\<close>

theorem otTaskletsSignalPending_sets_no_flag_counterexample:
  "\<not> otTaskPending (started (demo_world 5 0 1 []))
   \<and> new_actions (started (demo_world 5 0 1 []))
        (otTaskletsSignalPending demo_config demo_extern 0x20001000 (started (demo_world 5 0 1 [])))
      = [msg_send (OPENTHREAD_TASK_MSG_TYPE_EVENT demo_config) 7]
   \<and> \<not> otTaskPending
        (otTaskletsSignalPending demo_config demo_extern 0x20001000 (started (demo_world 5 0 1 [])))"
  by (simp add: otTaskletsSignalPending_def openthread_get_event_pid_def new_actions_def
        started_def boot_def demo_world_def demo_extern_def demo_config_def)

section \<open>The Event thread drains before it blocks\<close>

text \<open>
  Claim C3. A turn of the Event thread's main loop completes exactly when, after
  some number \<open>n\<close> of calls of \<^verbatim>\<open>otTaskletsProcess\<close>, each made while
  \<^verbatim>\<open>otTaskletsArePending\<close> held, \<^verbatim>\<open>otTaskletsArePending\<close> no longer holds; the turn then
  calls \<^verbatim>\<open>msg_receive\<close> in that very state, in which nothing is pending, and its trace
  starts with the \<open>n\<close> drain calls followed by the receive. So the Event thread
  never reaches \<^verbatim>\<open>msg_receive\<close> while the stack reports pending tasklets, and it
  reaches it whenever the pending work runs out after finitely many calls.
\<close>

theorem event_iteration_drains_before_receive:
  "event_iteration cfg X s = Some s' \<longleftrightarrow>
     (\<exists>n. (\<forall>i<n. tasklets_pending X ((tasklets_process X ^^ i) s)) \<and>
          \<not> tasklets_pending X ((tasklets_process X ^^ n) s) \<and>
          s' = event_switch cfg X (msg_receive_ret X (env ((tasklets_process X ^^ n) s)))
                 (call X msg_receive ((tasklets_process X ^^ n) s)) \<and>
          take (Suc n) (new_actions s s') =
            replicate n (otTaskletsProcess (openthread_get_instance s)) @ [msg_receive])"
  (is "?L \<longleftrightarrow> ?R")
proof
  assume ?L
  then obtain n s1 where d: "drain_tasklets X s = Some s1"
    and s1: "s1 = (tasklets_process X ^^ n) s"
    and s': "s' = event_switch cfg X (msg_receive_ret X (env s1)) (call X msg_receive s1)"
    and t: "new_actions s s' = replicate n (otTaskletsProcess (sInstance s)) @ [msg_receive]
           @ new_actions (call X msg_receive s1) s'"
    by (rule event_iteration_trace)
  from drain_tasklets_Some_D [OF d] obtain k where
    k: "\<forall>i<k. tasklets_pending X ((tasklets_process X ^^ i) s)"
       "\<not> tasklets_pending X ((tasklets_process X ^^ k) s)"
       "s1 = (tasklets_process X ^^ k) s"
    by blast
  have len: "length (trace s1) = length (trace s) + k" "length (trace s1) = length (trace s) + n"
    using tasklets_process_funpow_fields [of k X s] tasklets_process_funpow_fields [of n X s] k(3) s1
    by simp_all
  then have "k = n" by simp
  with k s' t show ?R
    by (intro exI [of _ n]) (simp add: openthread_get_instance_def)
next
  assume ?R
  then obtain n where n: "\<forall>i<n. tasklets_pending X ((tasklets_process X ^^ i) s)"
    "\<not> tasklets_pending X ((tasklets_process X ^^ n) s)"
    "s' = event_switch cfg X (msg_receive_ret X (env ((tasklets_process X ^^ n) s)))
                 (call X msg_receive ((tasklets_process X ^^ n) s))"
    by blast
  from n(1,2) have "drain_tasklets X s = Some ((tasklets_process X ^^ n) s)"
    using drain_tasklets_Some_iff by blast
  with n(3) show ?L by (simp add: event_iteration_def)
qed

theorem event_iteration_drains_before_receive_witness:
  "tasklets_pending demo_extern (started (demo_world 7 0 2 [demo_msg 0x2239 0]))
   \<and> \<not> tasklets_pending demo_extern
        ((tasklets_process demo_extern ^^ 2) (started (demo_world 7 0 2 [demo_msg 0x2239 0])))
   \<and> event_iteration demo_config demo_extern (started (demo_world 7 0 2 [demo_msg 0x2239 0]))
      = Some (event_switch demo_config demo_extern (demo_msg 0x2239 0)
               (call demo_extern msg_receive
                  ((tasklets_process demo_extern ^^ 2)
                     (started (demo_world 7 0 2 [demo_msg 0x2239 0])))))
   \<and> new_actions (started (demo_world 7 0 2 [demo_msg 0x2239 0]))
        (event_switch demo_config demo_extern (demo_msg 0x2239 0)
               (call demo_extern msg_receive
                  ((tasklets_process demo_extern ^^ 2)
                     (started (demo_world 7 0 2 [demo_msg 0x2239 0])))))
      = [otTaskletsProcess 0x20001000, otTaskletsProcess 0x20001000, msg_receive,
         otPlatAlarmMilliFired 0x20001000]"
proof -
  define S where "S = started (demo_world 7 0 2 [demo_msg 0x2239 0])"
  define S' where "S' = event_switch demo_config demo_extern (demo_msg 0x2239 0)
               (call demo_extern msg_receive ((tasklets_process demo_extern ^^ 2) S))"
  have fp: "(tasklets_process demo_extern ^^ 2) S
            = tasklets_process demo_extern (tasklets_process demo_extern S)"
    by (simp add: numeral_2_eq_2)
  have p: "tasklets_pending demo_extern S" "tasklets_pending demo_extern (tasklets_process demo_extern S)"
    "\<not> tasklets_pending demo_extern ((tasklets_process demo_extern ^^ 2) S)"
    unfolding fp
    by (simp_all add: S_def tasklets_pending_def tasklets_process_def
        started_def boot_def demo_world_def demo_extern_def demo_effect_def call_def)
  have m: "msg_receive_ret demo_extern (env ((tasklets_process demo_extern ^^ 2) S)) = demo_msg 0x2239 0"
    unfolding fp
    by (simp add: S_def tasklets_process_def demo_msg_receive_ret_def
        started_def boot_def demo_world_def demo_extern_def demo_effect_def call_def)
  have t: "new_actions S S' = [otTaskletsProcess 0x20001000, otTaskletsProcess 0x20001000,
             msg_receive, otPlatAlarmMilliFired 0x20001000]"
    unfolding S'_def fp
    by (simp add: S_def event_switch_def tasklets_process_def
        new_actions_def openthread_get_instance_def
        started_def boot_def demo_world_def demo_msg_def demo_config_def)
  have "\<forall>i<2. tasklets_pending demo_extern ((tasklets_process demo_extern ^^ i) S)"
    using p(1,2) by (simp add: numeral_2_eq_2 All_less_Suc)
  with p(3) m t have "event_iteration demo_config demo_extern S = Some S'"
    by (intro event_iteration_drains_before_receive [THEN iffD2] exI [of _ 2])
       (simp add: S'_def S_def started_def boot_def openthread_get_instance_def numeral_2_eq_2)
  with p t show ?thesis by (simp add: S_def S'_def)
qed

section \<open>The locking discipline of the Task thread\<close>

lemma lock_run_append:
  "lock_run ph (xs @ ys) = (case lock_run ph xs of None \<Rightarrow> None | Some ph' \<Rightarrow> lock_run ph' ys)"
  by (induction xs arbitrary: ph) (simp_all split: option.splits)

lemma lock_run_drain:
  "lock_run Coarse_held (replicate n (otTaskletsProcess i)) = Some Coarse_held"
  by (induction n) (simp_all add: lock_step_def is_netdev_isr_def)

lemma lock_run_task_switch:
  "lock_run Coarse_held (new_actions s (task_switch cfg X msg s)) = Some Coarse_held"
  by (simp add: task_switch_def Let_def new_actions_def lock_step_def is_netdev_isr_def)

lemma radio_mutex_task_switch:
  "lock_radio_mutex \<in> set (new_actions s (task_switch cfg X msg s)) \<Longrightarrow>
   type msg = OPENTHREAD_NETDEV_MSG_TYPE_EVENT cfg"
  by (simp add: task_switch_def Let_def new_actions_def split: if_splits)

lemma isr_count_task_switch:
  "length (filter is_netdev_isr (new_actions s (task_switch cfg X msg s))) \<le> 1"
  by (simp add: task_switch_def Let_def new_actions_def is_netdev_isr_def)

lemma isr_count_drain:
  "filter is_netdev_isr (replicate n (otTaskletsProcess i)) = []"
  by (simp add: is_netdev_isr_def)

lemma task_iteration_lock_run:
  assumes "task_iteration cfg X s = Some s'"
  shows "lock_run Idle (new_actions s s') = Some Idle"
proof -
  from assms obtain n s2 s3 where
    s3: "s3 = task_switch cfg X (msg_receive_ret X (env s)) s2"
    and t: "new_actions s s' = [msg_receive, openthread_coarse_lock_buffer_mutex]
           @ new_actions s2 s3 @ replicate n (otTaskletsProcess (sInstance s3))
           @ [openthread_coarse_unlock_buffer_mutex]"
    by (rule task_iteration_trace)
  have "lock_run Coarse_held (new_actions s2 s3 @ replicate n (otTaskletsProcess (sInstance s3))
           @ [openthread_coarse_unlock_buffer_mutex]) = Some Idle"
    by (simp add: lock_run_append lock_run_task_switch lock_run_drain s3 lock_step_def)
  then show ?thesis
    by (simp add: t lock_step_def)
qed

lemma task_loop_lock_run:
  "task_loop cfg X n s = Some s' \<Longrightarrow>
   trace s' = trace s @ new_actions s s' \<and> lock_run Idle (new_actions s s') = Some Idle"
proof (induction n arbitrary: s)
  case 0
  then show ?case by simp
next
  case (Suc n)
  from Suc.prems obtain s1 where it: "task_iteration cfg X s = Some s1"
    and rest: "task_loop cfg X n s1 = Some s'"
    by (auto split: option.splits)
  from Suc.IH [OF rest] have ih: "trace s' = trace s1 @ new_actions s1 s'"
    "lock_run Idle (new_actions s1 s') = Some Idle"
    by simp_all
  have e: "trace s1 = trace s @ new_actions s s1"
    using it by (rule task_iteration_extends)
  have "trace s' = trace s @ new_actions s s1 @ new_actions s1 s'"
    using ih(1) e by simp
  then have n: "new_actions s s' = new_actions s s1 @ new_actions s1 s'"
    by (rule new_actions_append)
  have "trace s' = trace s @ new_actions s s'"
    by (simp only: n ih(1) e append_assoc)
  moreover have "lock_run Idle (new_actions s s') = Some Idle"
    by (simp only: n lock_run_append task_iteration_lock_run [OF it] ih(2) option.case)
  ultimately show ?case by (rule conjI)
qed

lemma task_switch_lock_actions:
  "msg_receive \<notin> set (new_actions s (task_switch cfg X msg s))"
  "openthread_coarse_lock_buffer_mutex \<notin> set (new_actions s (task_switch cfg X msg s))"
  "openthread_coarse_unlock_buffer_mutex \<notin> set (new_actions s (task_switch cfg X msg s))"
  by (simp_all add: task_switch_def Let_def new_actions_def)

lemma task_switch_radio_case:
  assumes "wf_tags cfg" and "type msg = OPENTHREAD_NETDEV_MSG_TYPE_EVENT cfg"
  shows "new_actions s (task_switch cfg X msg s) =
           [lock_radio_mutex,
            netdev_isr (openthread_get_netdev X (effect X lock_radio_mutex (env s))),
            unlock_radio_mutex]"
  using assms(2) wf_tagsD [OF assms(1)]
  by (simp add: task_switch_def Let_def new_actions_def)

lemma task_switch_other_case:
  assumes "type msg \<noteq> OPENTHREAD_NETDEV_MSG_TYPE_EVENT cfg"
  shows "lock_radio_mutex \<notin> set (new_actions s (task_switch cfg X msg s))
       \<and> unlock_radio_mutex \<notin> set (new_actions s (task_switch cfg X msg s))
       \<and> filter is_netdev_isr (new_actions s (task_switch cfg X msg s)) = []"
  using assms
  by (simp add: task_switch_def Let_def new_actions_def is_netdev_isr_def)

lemma task_drain_lock_held:
  assumes "s2 = call X openthread_coarse_lock_buffer_mutex (call X msg_receive s)"
    and "s3 = task_switch cfg X m s2"
  shows "new_actions s ((tasklets_process X ^^ k) s3) =
           [msg_receive, openthread_coarse_lock_buffer_mutex] @ new_actions s2 s3
             @ replicate k (otTaskletsProcess (openthread_get_instance s))
       \<and> lock_run Idle (new_actions s ((tasklets_process X ^^ k) s3)) = Some Coarse_held
       \<and> openthread_coarse_unlock_buffer_mutex \<notin> set (new_actions s ((tasklets_process X ^^ k) s3))"
proof -
  have n: "new_actions s ((tasklets_process X ^^ k) s3) =
           [msg_receive, openthread_coarse_lock_buffer_mutex] @ new_actions s2 s3
             @ replicate k (otTaskletsProcess (openthread_get_instance s))"
    using task_drain_state [OF assms, of k] by (rule new_actions_append)
  have "lock_run Coarse_held (new_actions s2 s3
          @ replicate k (otTaskletsProcess (openthread_get_instance s))) = Some Coarse_held"
    by (simp add: lock_run_append lock_run_task_switch lock_run_drain assms(2))
  then have l: "lock_run Idle (new_actions s ((tasklets_process X ^^ k) s3)) = Some Coarse_held"
    by (simp add: n lock_step_def)
  have "openthread_coarse_unlock_buffer_mutex \<notin> set (new_actions s ((tasklets_process X ^^ k) s3))"
    using task_switch_lock_actions(3) [of s2 cfg X m, folded assms(2)] by (simp add: n)
  with n l show ?thesis by simp
qed

text \<open>
  Claim C4. Let \<open>s2\<close> be the state after the receive and the lock, and \<open>s3\<close> the state
  after the switch. A turn of the Task thread is the receive, the lock of the coarse
  buffer mutex right after it, the switch, the drain and the unlock, in this order:
  it completes exactly when, after some number \<open>n\<close> of calls of \<^verbatim>\<open>otTaskletsProcess\<close>,
  each made while tasklets were pending, nothing is pending, and then its trace is
  the receive, the lock, the actions of the switch, the \<open>n\<close> drain calls and the
  unlock. The switch itself never receives and never locks or unlocks the coarse
  mutex. At every point of the drain, whether the drain ends or not, the trace so
  far holds the lock and no unlock. The radio mutex is taken in the radio-driver-event
  case only, where the switch is the lock of the radio mutex, one call of the
  interrupt service routine and the unlock of the radio mutex; in every other case
  the switch touches neither the radio mutex nor the routine. The trace of every
  completed turn, and of any number of completed turns, is accepted by the locking
  discipline.
\<close>

theorem task_iteration_lock_discipline:
  assumes "m = msg_receive_ret X (env s)"
    and "s2 = call X openthread_coarse_lock_buffer_mutex (call X msg_receive s)"
    and "s3 = task_switch cfg X m s2"
  shows
   "task_iteration cfg X s =
      map_option (call X openthread_coarse_unlock_buffer_mutex) (drain_tasklets X s3)
    \<and> (\<forall>s'. task_iteration cfg X s = Some s' \<longleftrightarrow>
         (\<exists>n. (\<forall>i<n. tasklets_pending X ((tasklets_process X ^^ i) s3)) \<and>
              \<not> tasklets_pending X ((tasklets_process X ^^ n) s3) \<and>
              s' = call X openthread_coarse_unlock_buffer_mutex ((tasklets_process X ^^ n) s3) \<and>
              new_actions s s' =
                [msg_receive, openthread_coarse_lock_buffer_mutex] @ new_actions s2 s3
                  @ replicate n (otTaskletsProcess (openthread_get_instance s))
                  @ [openthread_coarse_unlock_buffer_mutex]))
    \<and> msg_receive \<notin> set (new_actions s2 s3)
    \<and> openthread_coarse_lock_buffer_mutex \<notin> set (new_actions s2 s3)
    \<and> openthread_coarse_unlock_buffer_mutex \<notin> set (new_actions s2 s3)
    \<and> (\<forall>k. (\<forall>i<k. tasklets_pending X ((tasklets_process X ^^ i) s3)) \<longrightarrow>
           drain_tasklets X s3 = drain_tasklets X ((tasklets_process X ^^ k) s3)
         \<and> new_actions s ((tasklets_process X ^^ k) s3) =
             [msg_receive, openthread_coarse_lock_buffer_mutex] @ new_actions s2 s3
               @ replicate k (otTaskletsProcess (openthread_get_instance s))
         \<and> lock_run Idle (new_actions s ((tasklets_process X ^^ k) s3)) = Some Coarse_held
         \<and> openthread_coarse_unlock_buffer_mutex
             \<notin> set (new_actions s ((tasklets_process X ^^ k) s3)))
    \<and> (wf_tags cfg \<and> type m = OPENTHREAD_NETDEV_MSG_TYPE_EVENT cfg \<longrightarrow>
           new_actions s2 s3 =
             [lock_radio_mutex,
              netdev_isr (openthread_get_netdev X (effect X lock_radio_mutex (env s2))),
              unlock_radio_mutex])
    \<and> (type m \<noteq> OPENTHREAD_NETDEV_MSG_TYPE_EVENT cfg \<longrightarrow>
           lock_radio_mutex \<notin> set (new_actions s2 s3)
         \<and> unlock_radio_mutex \<notin> set (new_actions s2 s3)
         \<and> filter is_netdev_isr (new_actions s2 s3) = [])
    \<and> (\<forall>s'. task_iteration cfg X s = Some s' \<longrightarrow>
           lock_run Idle (new_actions s s') = Some Idle
         \<and> (lock_radio_mutex \<in> set (new_actions s s') \<longrightarrow>
              type m = OPENTHREAD_NETDEV_MSG_TYPE_EVENT cfg)
         \<and> length (filter is_netdev_isr (new_actions s s')) \<le> 1)
    \<and> (\<forall>n s'. task_loop cfg X n s = Some s' \<longrightarrow>
           lock_run Idle (new_actions s s') = Some Idle)"
proof (intro conjI allI impI)
  show "task_iteration cfg X s =
      map_option (call X openthread_coarse_unlock_buffer_mutex) (drain_tasklets X s3)"
    unfolding assms by (rule task_iteration_eq)
  show "msg_receive \<notin> set (new_actions s2 s3)"
    "openthread_coarse_lock_buffer_mutex \<notin> set (new_actions s2 s3)"
    "openthread_coarse_unlock_buffer_mutex \<notin> set (new_actions s2 s3)"
    unfolding assms(3) by (rule task_switch_lock_actions)+
next
  fix s'
  show "task_iteration cfg X s = Some s' \<longleftrightarrow>
         (\<exists>n. (\<forall>i<n. tasklets_pending X ((tasklets_process X ^^ i) s3)) \<and>
              \<not> tasklets_pending X ((tasklets_process X ^^ n) s3) \<and>
              s' = call X openthread_coarse_unlock_buffer_mutex ((tasklets_process X ^^ n) s3) \<and>
              new_actions s s' =
                [msg_receive, openthread_coarse_lock_buffer_mutex] @ new_actions s2 s3
                  @ replicate n (otTaskletsProcess (openthread_get_instance s))
                  @ [openthread_coarse_unlock_buffer_mutex])"
    using assms(2) assms(3) [unfolded assms(1)] by (rule task_iteration_Some_iff)
next
  fix k
  assume p: "\<forall>i<k. tasklets_pending X ((tasklets_process X ^^ i) s3)"
  then show "drain_tasklets X s3 = drain_tasklets X ((tasklets_process X ^^ k) s3)"
    by (rule drain_tasklets_funpow)
  note h = task_drain_lock_held [OF assms(2,3), of k]
  show "new_actions s ((tasklets_process X ^^ k) s3) =
             [msg_receive, openthread_coarse_lock_buffer_mutex] @ new_actions s2 s3
               @ replicate k (otTaskletsProcess (openthread_get_instance s))"
    using h by (rule conjunct1)
  show "lock_run Idle (new_actions s ((tasklets_process X ^^ k) s3)) = Some Coarse_held"
    using h by (elim conjE)
  show "openthread_coarse_unlock_buffer_mutex
             \<notin> set (new_actions s ((tasklets_process X ^^ k) s3))"
    using h by (elim conjE)
next
  assume "wf_tags cfg \<and> type m = OPENTHREAD_NETDEV_MSG_TYPE_EVENT cfg"
  then show "new_actions s2 s3 =
             [lock_radio_mutex,
              netdev_isr (openthread_get_netdev X (effect X lock_radio_mutex (env s2))),
              unlock_radio_mutex]"
    unfolding assms(3) by (elim conjE) (rule task_switch_radio_case)
next
  assume o: "type m \<noteq> OPENTHREAD_NETDEV_MSG_TYPE_EVENT cfg"
  note h = task_switch_other_case [OF o, of s2 X]
  show "lock_radio_mutex \<notin> set (new_actions s2 s3)"
    unfolding assms(3) using h by (rule conjunct1)
  show "unlock_radio_mutex \<notin> set (new_actions s2 s3)"
    unfolding assms(3) using h by (elim conjE)
  show "filter is_netdev_isr (new_actions s2 s3) = []"
    unfolding assms(3) using h by (elim conjE)
next
  fix s' assume it: "task_iteration cfg X s = Some s'"
  then obtain n t2 t3 where
    t3: "t3 = task_switch cfg X (msg_receive_ret X (env s)) t2"
    and t: "new_actions s s' = [msg_receive, openthread_coarse_lock_buffer_mutex]
           @ new_actions t2 t3 @ replicate n (otTaskletsProcess (sInstance t3))
           @ [openthread_coarse_unlock_buffer_mutex]"
    by (rule task_iteration_trace)
  show "lock_run Idle (new_actions s s') = Some Idle"
    using it by (rule task_iteration_lock_run)
  show "length (filter is_netdev_isr (new_actions s s')) \<le> 1"
    using isr_count_task_switch [of t2 cfg X "msg_receive_ret X (env s)"]
    by (simp add: t t3 isr_count_drain) (simp add: is_netdev_isr_def)
  assume "lock_radio_mutex \<in> set (new_actions s s')"
  then show "type m = OPENTHREAD_NETDEV_MSG_TYPE_EVENT cfg"
    using radio_mutex_task_switch [of t2 cfg X "msg_receive_ret X (env s)"]
    by (auto simp: t t3 assms(1))
next
  fix n s' assume "task_loop cfg X n s = Some s'"
  then show "lock_run Idle (new_actions s s') = Some Idle"
    by (rule task_loop_lock_run [THEN conjunct2])
qed

theorem task_iteration_lock_discipline_witness:
  "wf_tags demo_config
   \<and> type (msg_receive_ret demo_extern (env (started (demo_world 5 0 1 [demo_msg 0x2236 0]))))
        = OPENTHREAD_NETDEV_MSG_TYPE_EVENT demo_config
   \<and> (\<exists>s'. task_iteration demo_config demo_extern (started (demo_world 5 0 1 [demo_msg 0x2236 0]))
          = Some s'
      \<and> new_actions (started (demo_world 5 0 1 [demo_msg 0x2236 0])) s'
          = [msg_receive, openthread_coarse_lock_buffer_mutex, lock_radio_mutex,
             netdev_isr 0x20002000, unlock_radio_mutex, otTaskletsProcess 0x20001000,
             openthread_coarse_unlock_buffer_mutex]
      \<and> lock_run Idle (new_actions (started (demo_world 5 0 1 [demo_msg 0x2236 0])) s') = Some Idle)
   \<and> new_actions
        (call demo_extern openthread_coarse_lock_buffer_mutex
           (call demo_extern msg_receive (started (demo_world 5 0 1 [demo_msg 0x2236 0]))))
        (task_switch demo_config demo_extern (demo_msg 0x2236 0)
           (call demo_extern openthread_coarse_lock_buffer_mutex
              (call demo_extern msg_receive (started (demo_world 5 0 1 [demo_msg 0x2236 0])))))
      = [lock_radio_mutex, netdev_isr 0x20002000, unlock_radio_mutex]"
proof -
  define S where "S = started (demo_world 5 0 1 [demo_msg 0x2236 0])"
  define S2 where "S2 = call demo_extern openthread_coarse_lock_buffer_mutex
                          (call demo_extern msg_receive S)"
  define S3 where "S3 = task_switch demo_config demo_extern (msg_receive_ret demo_extern (env S)) S2"
  define P1 where "P1 = (tasklets_process demo_extern ^^ 1) S3"
  define S' where "S' = call demo_extern openthread_coarse_unlock_buffer_mutex P1"
  have wf: "wf_tags demo_config"
    by (simp add: wf_tags_def demo_config_def)
  have m: "msg_receive_ret demo_extern (env S) = demo_msg 0x2236 0"
    by (simp add: S_def started_def boot_def demo_world_def demo_extern_def
          demo_msg_receive_ret_def)
  have ty: "type (msg_receive_ret demo_extern (env S)) = OPENTHREAD_NETDEV_MSG_TYPE_EVENT demo_config"
    by (simp add: m demo_msg_def demo_config_def)
  note T = task_iteration_lock_discipline [OF refl S2_def S3_def]
  have sw0: "new_actions S2 S3 =
      [lock_radio_mutex,
       netdev_isr (openthread_get_netdev demo_extern (effect demo_extern lock_radio_mutex (env S2))),
       unlock_radio_mutex]"
    using T wf ty by (elim conjE) simp
  have sw: "new_actions S2 S3 = [lock_radio_mutex, netdev_isr 0x20002000, unlock_radio_mutex]"
    unfolding sw0 by (simp add: demo_extern_def)
  have p: "tasklets_pending demo_extern S3" "\<not> tasklets_pending demo_extern P1"
    by (simp_all add: P1_def S3_def S2_def S_def m task_switch_def Let_def tasklets_pending_def
          tasklets_process_def demo_msg_def demo_config_def
          started_def boot_def demo_world_def demo_extern_def demo_effect_def)
  have i: "openthread_get_instance S = 0x20001000"
    by (simp add: S_def openthread_get_instance_def started_def boot_def)
  have a: "\<forall>i<1. tasklets_pending demo_extern ((tasklets_process demo_extern ^^ i) S3)"
    using p(1) by simp
  have t1: "trace P1 =
      trace S @ [msg_receive, openthread_coarse_lock_buffer_mutex] @ new_actions S2 S3
               @ replicate 1 (otTaskletsProcess (openthread_get_instance S))"
    unfolding P1_def by (rule task_drain_state [OF S2_def S3_def])
  have "trace S' = trace S @ [msg_receive, openthread_coarse_lock_buffer_mutex] @ new_actions S2 S3
                  @ replicate 1 (otTaskletsProcess (openthread_get_instance S))
                  @ [openthread_coarse_unlock_buffer_mutex]"
    by (simp only: S'_def call_fields t1 append_assoc)
  then have t: "new_actions S S' = [msg_receive, openthread_coarse_lock_buffer_mutex] @ new_actions S2 S3
                  @ replicate 1 (otTaskletsProcess (openthread_get_instance S))
                  @ [openthread_coarse_unlock_buffer_mutex]"
    by (rule new_actions_append)
  have "\<exists>n. (\<forall>i<n. tasklets_pending demo_extern ((tasklets_process demo_extern ^^ i) S3)) \<and>
              \<not> tasklets_pending demo_extern ((tasklets_process demo_extern ^^ n) S3) \<and>
              S' = call demo_extern openthread_coarse_unlock_buffer_mutex
                     ((tasklets_process demo_extern ^^ n) S3) \<and>
              new_actions S S' =
                [msg_receive, openthread_coarse_lock_buffer_mutex] @ new_actions S2 S3
                  @ replicate n (otTaskletsProcess (openthread_get_instance S))
                  @ [openthread_coarse_unlock_buffer_mutex]"
    using a p(2) t unfolding P1_def S'_def [unfolded P1_def] by (intro exI [of _ 1] conjI refl)
  then have run: "task_iteration demo_config demo_extern S = Some S'"
    using T [THEN conjunct2, THEN conjunct1, rule_format, of S'] by (rule iffD2 [rotated])
  have l: "lock_run Idle (new_actions S S') = Some Idle"
    using T run by (elim conjE) blast
  have "new_actions S S' = [msg_receive, openthread_coarse_lock_buffer_mutex, lock_radio_mutex,
             netdev_isr 0x20002000, unlock_radio_mutex, otTaskletsProcess 0x20001000,
             openthread_coarse_unlock_buffer_mutex]"
    by (simp add: t sw i)
  with run l have "\<exists>s'. task_iteration demo_config demo_extern S = Some s'
      \<and> new_actions S s' = [msg_receive, openthread_coarse_lock_buffer_mutex, lock_radio_mutex,
             netdev_isr 0x20002000, unlock_radio_mutex, otTaskletsProcess 0x20001000,
             openthread_coarse_unlock_buffer_mutex]
      \<and> lock_run Idle (new_actions S s') = Some Idle"
    by (intro exI [of _ S'] conjI)
  moreover note sw [unfolded S3_def S2_def m]
  ultimately show ?thesis
    using wf ty unfolding S_def by (intro conjI)
qed

section \<open>Job requests and serial input in the Event thread\<close>





section \<open>Transmit outcomes in both threads\<close>

text \<open>
  Claim C7. On a radio-busy message and on a link-retry-timeout message the switch
  of the Task thread and the switch of the Event thread are the same function of
  the state: one call of \<^verbatim>\<open>sent_pkt\<close> on the stack instance, with
  \<^verbatim>\<open>NETDEV_EVENT_TX_MEDIUM_BUSY\<close> for radio-busy and with \<^verbatim>\<open>NETDEV_EVENT_TX_NOACK\<close> for
  link-retry-timeout.
\<close>

theorem task_switch_reports_like_event_switch:
  assumes "wf_tags cfg"
  shows "(type msg = OPENTHREAD_NETDEV_MSG_TYPE_RADIO_BUSY cfg \<longrightarrow>
            task_switch cfg X msg s = event_switch cfg X msg s
          \<and> task_switch cfg X msg s =
              call X (sent_pkt (openthread_get_instance s) NETDEV_EVENT_TX_MEDIUM_BUSY) s
          \<and> new_actions s (task_switch cfg X msg s) =
              [sent_pkt (openthread_get_instance s) NETDEV_EVENT_TX_MEDIUM_BUSY])
       \<and> (type msg = OPENTHREAD_LINK_RETRY_TIMEOUT cfg \<longrightarrow>
            task_switch cfg X msg s = event_switch cfg X msg s
          \<and> task_switch cfg X msg s =
              call X (sent_pkt (openthread_get_instance s) NETDEV_EVENT_TX_NOACK) s
          \<and> new_actions s (task_switch cfg X msg s) =
              [sent_pkt (openthread_get_instance s) NETDEV_EVENT_TX_NOACK])"
  using wf_tagsD [OF assms]
  by (simp add: task_switch_def event_switch_def Let_def new_actions_def)

theorem task_switch_reports_like_event_switch_witness:
  "wf_tags demo_config
   \<and> task_switch demo_config demo_extern (demo_msg 0x2238 0) (started (demo_world 5 0 0 []))
      = event_switch demo_config demo_extern (demo_msg 0x2238 0) (started (demo_world 5 0 0 []))
   \<and> new_actions (started (demo_world 5 0 0 []))
        (task_switch demo_config demo_extern (demo_msg 0x2238 0) (started (demo_world 5 0 0 [])))
      = [sent_pkt 0x20001000 NETDEV_EVENT_TX_MEDIUM_BUSY]
   \<and> task_switch demo_config demo_extern (demo_msg 0x2237 0) (started (demo_world 5 0 0 []))
      = event_switch demo_config demo_extern (demo_msg 0x2237 0) (started (demo_world 5 0 0 []))
   \<and> new_actions (started (demo_world 5 0 0 []))
        (task_switch demo_config demo_extern (demo_msg 0x2237 0) (started (demo_world 5 0 0 [])))
      = [sent_pkt 0x20001000 NETDEV_EVENT_TX_NOACK]"
proof -
  have wf: "wf_tags demo_config"
    by (simp add: wf_tags_def demo_config_def)
  have ty: "type (demo_msg 0x2238 0) = OPENTHREAD_NETDEV_MSG_TYPE_RADIO_BUSY demo_config"
    "type (demo_msg 0x2237 0) = OPENTHREAD_LINK_RETRY_TIMEOUT demo_config"
    by (simp_all add: demo_msg_def demo_config_def)
  note busy = task_switch_reports_like_event_switch [OF wf, THEN conjunct1, rule_format, OF ty(1),
      of demo_extern "started (demo_world 5 0 0 [])"]
  note retry = task_switch_reports_like_event_switch [OF wf, THEN conjunct2, rule_format, OF ty(2),
      of demo_extern "started (demo_world 5 0 0 [])"]
  have i: "openthread_get_instance (started (demo_world 5 0 0 [])) = 0x20001000"
    by (simp add: openthread_get_instance_def started_def boot_def)
  show ?thesis
    using wf busy [THEN conjunct1] busy [THEN conjunct2, THEN conjunct2]
      retry [THEN conjunct1] retry [THEN conjunct2, THEN conjunct2]
    unfolding i by (intro conjI)
qed

section \<open>Radio-driver events in the Event thread\<close>




section \<open>Messages with an unrecognised tag\<close>

lemma event_switch_unrecognized:
  "type msg \<notin> set (event_tags cfg) \<Longrightarrow> event_switch cfg X msg s = s"
  by (auto simp: event_tags_def event_switch_def split: if_splits)

lemma task_switch_unrecognized:
  "type msg \<notin> set (task_tags cfg) \<Longrightarrow> task_switch cfg X msg s = s"
  by (auto simp: task_tags_def task_switch_def split: if_splits)

text \<open>
  Claim C9. A message whose tag is none of the case labels of a thread's switch (in
  the build at hand) leaves the state as it is: the switch performs no call and no
  store. The turn goes on as for any message: in the Event thread it ends with the
  receive and the loop enters its next turn; in the Task thread the turn consists of
  the receive, the lock, the drain and the unlock, and the loop enters its next
  turn. For any message at all, a turn fails to complete only when its drain never
  ends, so processing a message never ends the loop.
\<close>

theorem unrecognized_tag_ignored:
  "(type msg \<notin> set (event_tags cfg) \<longrightarrow> event_switch cfg X msg s = s)
   \<and> (type msg \<notin> set (task_tags cfg) \<longrightarrow> task_switch cfg X msg s = s)
   \<and> (\<forall>s1. drain_tasklets X s = Some s1
             \<and> type (msg_receive_ret X (env s1)) \<notin> set (event_tags cfg) \<longrightarrow>
          event_iteration cfg X s = Some (call X msg_receive s1)
        \<and> event_loop cfg X (Suc n) s = event_loop cfg X n (call X msg_receive s1))
   \<and> (type (msg_receive_ret X (env s)) \<notin> set (task_tags cfg) \<longrightarrow>
          task_iteration cfg X s =
            map_option (call X openthread_coarse_unlock_buffer_mutex)
              (drain_tasklets X
                 (call X openthread_coarse_lock_buffer_mutex (call X msg_receive s)))
        \<and> task_loop cfg X (Suc n) s =
            (case drain_tasklets X
                    (call X openthread_coarse_lock_buffer_mutex (call X msg_receive s)) of
               None \<Rightarrow> None
             | Some s4 \<Rightarrow> task_loop cfg X n (call X openthread_coarse_unlock_buffer_mutex s4)))
   \<and> (event_iteration cfg X s = None \<longleftrightarrow> drain_tasklets X s = None)
   \<and> (task_iteration cfg X s = None \<longleftrightarrow>
        drain_tasklets X (task_switch cfg X (msg_receive_ret X (env s))
          (call X openthread_coarse_lock_buffer_mutex (call X msg_receive s))) = None)"
proof (intro conjI allI impI)
  show "event_switch cfg X msg s = s" if "type msg \<notin> set (event_tags cfg)"
    using that by (rule event_switch_unrecognized)
  show "task_switch cfg X msg s = s" if "type msg \<notin> set (task_tags cfg)"
    using that by (rule task_switch_unrecognized)
  show "event_iteration cfg X s = None \<longleftrightarrow> drain_tasklets X s = None"
    by (rule event_iteration_None_iff)
  show "task_iteration cfg X s = None \<longleftrightarrow>
        drain_tasklets X (task_switch cfg X (msg_receive_ret X (env s))
          (call X openthread_coarse_lock_buffer_mutex (call X msg_receive s))) = None"
    by (rule task_iteration_None_iff)
next
  fix s1
  assume a: "drain_tasklets X s = Some s1
             \<and> type (msg_receive_ret X (env s1)) \<notin> set (event_tags cfg)"
  then show it: "event_iteration cfg X s = Some (call X msg_receive s1)"
    by (simp add: event_iteration_def event_switch_unrecognized)
  then show "event_loop cfg X (Suc n) s = event_loop cfg X n (call X msg_receive s1)"
    by simp
next
  assume a: "type (msg_receive_ret X (env s)) \<notin> set (task_tags cfg)"
  then show it: "task_iteration cfg X s =
            map_option (call X openthread_coarse_unlock_buffer_mutex)
              (drain_tasklets X
                 (call X openthread_coarse_lock_buffer_mutex (call X msg_receive s)))"
    by (simp add: task_iteration_def Let_def task_switch_unrecognized split: option.splits)
  then show "task_loop cfg X (Suc n) s =
            (case drain_tasklets X
                    (call X openthread_coarse_lock_buffer_mutex (call X msg_receive s)) of
               None \<Rightarrow> None
             | Some s4 \<Rightarrow> task_loop cfg X n (call X openthread_coarse_unlock_buffer_mutex s4))"
    by (simp split: option.splits)
qed

theorem unrecognized_tag_ignored_witness:
  "0x9999 \<notin> set (event_tags demo_config) \<and> 0x9999 \<notin> set (task_tags demo_config)
   \<and> event_switch demo_config demo_extern (demo_msg 0x9999 0) (started (demo_world 7 0 0 []))
      = started (demo_world 7 0 0 [])
   \<and> task_switch demo_config demo_extern (demo_msg 0x9999 0) (started (demo_world 5 0 0 []))
      = started (demo_world 5 0 0 [])
   \<and> 0x223A \<notin> set (event_tags (demo_config\<lparr>MODULE_OPENTHREAD_FTD := False\<rparr>))
   \<and> event_switch (demo_config\<lparr>MODULE_OPENTHREAD_FTD := False\<rparr>) demo_extern (demo_msg 0x223A 0)
        (started (demo_world 7 0 0 [])) = started (demo_world 7 0 0 [])
   \<and> map_option (new_actions (started (demo_world 5 0 1 [demo_msg 0x9999 0])))
        (task_iteration demo_config demo_extern (started (demo_world 5 0 1 [demo_msg 0x9999 0])))
      = Some [msg_receive, openthread_coarse_lock_buffer_mutex, otTaskletsProcess 0x20001000,
              openthread_coarse_unlock_buffer_mutex]"
proof -
  have u: "type (demo_msg 0x9999 0) \<notin> set (event_tags demo_config)"
    "type (demo_msg 0x9999 0) \<notin> set (task_tags demo_config)"
    "type (demo_msg 0x223A 0) \<notin> set (event_tags (demo_config\<lparr>MODULE_OPENTHREAD_FTD := False\<rparr>))"
    "type (msg_receive_ret demo_extern (env (started (demo_world 5 0 1 [demo_msg 0x9999 0]))))
       \<notin> set (task_tags demo_config)"
    by (simp_all add: event_tags_def task_tags_def demo_msg_def demo_config_def
          demo_extern_def demo_msg_receive_ret_def started_def boot_def demo_world_def)
  note e = unrecognized_tag_ignored [THEN conjunct1, rule_format, OF u(1),
             of demo_extern "started (demo_world 7 0 0 [])"]
  note t = unrecognized_tag_ignored [THEN conjunct2, THEN conjunct1, rule_format, OF u(2),
             of demo_extern "started (demo_world 5 0 0 [])"]
  note m = unrecognized_tag_ignored [THEN conjunct1, rule_format, OF u(3),
             of demo_extern "started (demo_world 7 0 0 [])"]
  note i = unrecognized_tag_ignored [THEN conjunct2, THEN conjunct2, THEN conjunct2,
             THEN conjunct1, rule_format, OF u(4), THEN conjunct1]
  have r: "map_option (new_actions (started (demo_world 5 0 1 [demo_msg 0x9999 0])))
        (task_iteration demo_config demo_extern (started (demo_world 5 0 1 [demo_msg 0x9999 0])))
      = Some [msg_receive, openthread_coarse_lock_buffer_mutex, otTaskletsProcess 0x20001000,
              openthread_coarse_unlock_buffer_mutex]"
    unfolding i
    by (simp add: drain_tasklets.simps new_actions_def openthread_get_instance_def
          started_def boot_def demo_world_def demo_extern_def demo_effect_def call_def)
  from u(1-3) e t m r show ?thesis
    by (simp add: demo_msg_def)
qed

section \<open>The tasklet-pending callback\<close>

text \<open>
  Claim C10. \<^verbatim>\<open>otTaskletsSignalPending\<close> sends one tasklet-pending message, to the pid
  that \<^verbatim>\<open>openthread_get_event_pid\<close> returns, when the calling thread is not that thread,
  and nothing else; called from the Event thread itself it leaves the state as it is,
  so no message is sent at all. When the Task thread has another pid than the Event
  thread, no message goes to the Task thread.
\<close>

theorem otTaskletsSignalPending_posts_to_event_thread:
  "new_actions s (otTaskletsSignalPending cfg X aInstance s) =
     (if thread_getpid X (env s) \<noteq> openthread_get_event_pid s
      then [msg_send (OPENTHREAD_TASK_MSG_TYPE_EVENT cfg) (openthread_get_event_pid s)]
      else [])
   \<and> (thread_getpid X (env s) = openthread_get_event_pid s \<longrightarrow>
        otTaskletsSignalPending cfg X aInstance s = s)
   \<and> (openthread_get_task_pid s \<noteq> openthread_get_event_pid s \<longrightarrow>
        (\<forall>ty. msg_send ty (openthread_get_task_pid s)
               \<notin> set (new_actions s (otTaskletsSignalPending cfg X aInstance s))))"
  by (simp add: otTaskletsSignalPending_def new_actions_def)

theorem otTaskletsSignalPending_posts_to_event_thread_witness:
  "new_actions (started (demo_world 5 0 0 []))
     (otTaskletsSignalPending demo_config demo_extern 0x20001000 (started (demo_world 5 0 0 [])))
   = [msg_send 0x2235 7]
   \<and> otTaskletsSignalPending demo_config demo_extern 0x20001000 (started (demo_world 7 0 0 []))
   = started (demo_world 7 0 0 [])
   \<and> msg_send 0x2235 5 \<notin> set (new_actions (started (demo_world 5 0 0 []))
     (otTaskletsSignalPending demo_config demo_extern 0x20001000 (started (demo_world 5 0 0 []))))"
  using otTaskletsSignalPending_posts_to_event_thread
          [of "started (demo_world 5 0 0 [])" demo_config demo_extern "0x20001000"]
        otTaskletsSignalPending_posts_to_event_thread
          [of "started (demo_world 7 0 0 [])" demo_config demo_extern "0x20001000"]
  by (simp add: started_def boot_def demo_world_def demo_extern_def demo_config_def
        openthread_get_event_pid_def openthread_get_task_pid_def new_actions_def)

end
